theory Spec2Isabelle
  imports Complex_Main "HOL-Library.Word" "HOL-Library.Monad_Syntax"
begin

section \<open>Chunked worklists (namespace GaloisRuntime::WorkList::Alt)\<close>

subsection \<open>Chunk\<close>

text \<open>
  \<^verbatim>\<open>template<typename T, int chunksize> class Chunk\<close> holds an array
  \<^verbatim>\<open>T data[chunksize]\<close> and a count \<^verbatim>\<open>num\<close>. Only the slots
  \<^verbatim>\<open>data[0..num)\<close> are ever read, so the record keeps exactly this occupied
  prefix: \<open>num\<close> is the length of the list, \<^verbatim>\<open>data[num++] = val\<close> appends
  at the end and \<^verbatim>\<open>data[--num]\<close> removes the last element. The template
  parameter \<^verbatim>\<open>chunksize\<close> is an array bound and is passed as a natural number.
  The pair \<^verbatim>\<open>(false, T())\<close> of a failed pop is \<open>None\<close>, the pair
  \<^verbatim>\<open>(true, x)\<close> is \<open>Some x\<close>.
\<close>

record 'a Chunk =
  data :: "'a list"

definition num :: "'a Chunk \<Rightarrow> nat" where
  "num c = length (data c)"

definition Chunk_new :: "'a Chunk" where
  "Chunk_new = \<lparr>data = []\<rparr>"

definition Chunk_pop :: "'a Chunk \<Rightarrow> 'a option \<times> 'a Chunk" where
  "Chunk_pop c =
     (if num c \<noteq> 0 then (Some (last (data c)), c\<lparr>data := butlast (data c)\<rparr>)
      else (None, c))"

definition Chunk_push :: "nat \<Rightarrow> 'a Chunk \<Rightarrow> 'a \<Rightarrow> bool \<times> 'a Chunk" where
  "Chunk_push chunksize c val =
     (if num c < chunksize then (True, c\<lparr>data := data c @ [val]\<rparr>)
      else (False, c))"

text \<open>The range push copies while the range is not exhausted and the chunk has room; it
  returns the part of the range that was not consumed.\<close>

fun Chunk_push_range :: "nat \<Rightarrow> 'a Chunk \<Rightarrow> 'a list \<Rightarrow> 'a list \<times> 'a Chunk" where
  "Chunk_push_range chunksize c [] = ([], c)"
| "Chunk_push_range chunksize c (b # bs) =
     (if num c < chunksize then Chunk_push_range chunksize (c\<lparr>data := data c @ [b]\<rparr>) bs
      else (b # bs, c))"

definition Chunk_empty :: "'a Chunk \<Rightarrow> bool" where
  "Chunk_empty c = (num c = 0)"

definition Chunk_full :: "nat \<Rightarrow> 'a Chunk \<Rightarrow> bool" where
  "Chunk_full chunksize c = (num c = chunksize)"

subsection \<open>LIFO\_SB\<close>

text \<open>
  The stack is a chain of chunk headers linked through \<^verbatim>\<open>next\<close>, with the
  head pointer in a pointer lock. With one thread the compare-and-swap of
  \<^verbatim>\<open>push\<close> succeeds at its first attempt and the lock of \<^verbatim>\<open>pop\<close> is
  free, so the chain is the list of its chunks, head first; the null pointer that
  \<^verbatim>\<open>pop\<close> returns on an empty chain is \<open>None\<close>.
\<close>

type_synonym 'a LIFO_SB = "'a Chunk list"

definition LIFO_SB_empty :: "'a LIFO_SB \<Rightarrow> bool" where
  "LIFO_SB_empty head = (head = [])"

definition LIFO_SB_push :: "'a LIFO_SB \<Rightarrow> 'a Chunk \<Rightarrow> 'a LIFO_SB" where
  "LIFO_SB_push head val = val # head"

definition LIFO_SB_pushi :: "'a LIFO_SB \<Rightarrow> 'a Chunk \<Rightarrow> 'a LIFO_SB" where
  "LIFO_SB_pushi head val = LIFO_SB_push head val"

definition LIFO_SB_pop :: "'a LIFO_SB \<Rightarrow> 'a Chunk option \<times> 'a LIFO_SB" where
  "LIFO_SB_pop head =
     (if LIFO_SB_empty head then (None, head)
      else (case head of [] \<Rightarrow> (None, head) | C # rest \<Rightarrow> (Some C, rest)))"

subsection \<open>ChunkedAdaptor over LIFO\_SB\<close>

text \<open>
  \<^verbatim>\<open>PerCPU<ChunkTy*> data\<close> gives every worker its own current chunk pointer;
  \<open>cur\<close> maps the worker's id to its chunk, \<open>None\<close> being the null pointer.
  \<^verbatim>\<open>data.get()\<close> in a call made by worker \<open>tid\<close> is \<open>cur s tid\<close>.
  \<^verbatim>\<open>mkChunk\<close> yields a fresh chunk with \<open>num = 0\<close>; \<^verbatim>\<open>delChunk\<close>
  only returns storage to the allocator.
\<close>

record 'a ChunkedAdaptor =
  cur :: "nat \<Rightarrow> 'a Chunk option"
  worklist :: "'a LIFO_SB"

definition ChunkedAdaptor_new :: "'a ChunkedAdaptor" where
  "ChunkedAdaptor_new = \<lparr>cur = (\<lambda>i. None), worklist = []\<rparr>"

text \<open>The tail of \<^verbatim>\<open>push\<close>, reached when the current chunk is absent or
  full: a fresh chunk becomes the current one and receives the value. The result of
  this inner \<^verbatim>\<open>n->push(val)\<close> is dropped by the source.\<close>

definition push_fresh :: "nat \<Rightarrow> nat \<Rightarrow> 'a ChunkedAdaptor \<Rightarrow> 'a \<Rightarrow> bool \<times> 'a ChunkedAdaptor" where
  "push_fresh chunksize tid s val =
     (let n = Chunk_new;
          n' = snd (Chunk_push chunksize n val)
      in (True, s\<lparr>cur := (cur s)(tid := Some n')\<rparr>))"

definition push :: "nat \<Rightarrow> nat \<Rightarrow> 'a ChunkedAdaptor \<Rightarrow> 'a \<Rightarrow> bool \<times> 'a ChunkedAdaptor" where
  "push chunksize tid s val =
     (case cur s tid of
        None \<Rightarrow> push_fresh chunksize tid s val
      | Some n \<Rightarrow>
          (case Chunk_push chunksize n val of
             (True, n') \<Rightarrow> (True, s\<lparr>cur := (cur s)(tid := Some n')\<rparr>)
           | (False, _) \<Rightarrow>
               push_fresh chunksize tid (s\<lparr>worklist := LIFO_SB_push (worklist s) n\<rparr>) val))"

definition pushi :: "nat \<Rightarrow> nat \<Rightarrow> 'a ChunkedAdaptor \<Rightarrow> 'a \<Rightarrow> bool \<times> 'a ChunkedAdaptor" where
  "pushi chunksize tid s val = push chunksize tid s val"

text \<open>\<^verbatim>\<open>template<typename Iter> void pushi(Iter b, Iter e)\<close>: every round
  fills a fresh chunk from the range and hands it to \<^verbatim>\<open>worklist.pushi\<close>. The
  round consumes at least one element when \<open>chunksize > 0\<close>; with \<open>chunksize = 0\<close>
  the source loops forever, which the fuel argument (the length of the range plus one
  is always enough otherwise) turns into \<open>None\<close>.\<close>

fun pushi_range_loop ::
  "nat \<Rightarrow> nat \<Rightarrow> 'a LIFO_SB \<Rightarrow> 'a list \<Rightarrow> 'a LIFO_SB option" where
  "pushi_range_loop fuel chunksize wl [] = Some wl"
| "pushi_range_loop 0 chunksize wl (b # bs) = None"
| "pushi_range_loop (Suc fuel) chunksize wl (b # bs) =
     (let (rest, n) = Chunk_push_range chunksize Chunk_new (b # bs)
      in pushi_range_loop fuel chunksize (LIFO_SB_pushi wl n) rest)"

definition pushi_range ::
  "nat \<Rightarrow> nat \<Rightarrow> 'a ChunkedAdaptor \<Rightarrow> 'a list \<Rightarrow> 'a ChunkedAdaptor option" where
  "pushi_range chunksize tid s bs =
     map_option (\<lambda>wl. s\<lparr>worklist := wl\<rparr>)
       (pushi_range_loop (Suc (length bs)) chunksize (worklist s) bs)"

text \<open>The tail of \<^verbatim>\<open>pop\<close>, reached when the current chunk is absent or
  empty (and then deleted): the next chunk comes from the underlying worklist.\<close>

definition pop_refill :: "nat \<Rightarrow> 'a ChunkedAdaptor \<Rightarrow> 'a option \<times> 'a ChunkedAdaptor" where
  "pop_refill tid s =
     (case LIFO_SB_pop (worklist s) of
        (Some n, wl) \<Rightarrow>
          (let (r, n') = Chunk_pop n
           in (r, s\<lparr>cur := (cur s)(tid := Some n'), worklist := wl\<rparr>))
      | (None, wl) \<Rightarrow> (None, s\<lparr>cur := (cur s)(tid := None), worklist := wl\<rparr>))"

definition pop :: "nat \<Rightarrow> 'a ChunkedAdaptor \<Rightarrow> 'a option \<times> 'a ChunkedAdaptor" where
  "pop tid s =
     (case cur s tid of
        None \<Rightarrow> pop_refill tid s
      | Some n \<Rightarrow>
          (case Chunk_pop n of
             (Some v, n') \<Rightarrow> (Some v, s\<lparr>cur := (cur s)(tid := Some n')\<rparr>)
           | (None, _) \<Rightarrow> pop_refill tid s))"

subsection \<open>One worker: sequences of operations and the stack they are compared with\<close>

datatype 'a wl_op = Push 'a | Pop

datatype 'a wl_obs = Pushed bool | Popped "'a option"

fun run_adaptor ::
  "nat \<Rightarrow> nat \<Rightarrow> 'a ChunkedAdaptor \<Rightarrow> 'a wl_op list \<Rightarrow> 'a wl_obs list" where
  "run_adaptor chunksize tid s [] = []"
| "run_adaptor chunksize tid s (Push x # ops) =
     (let (r, s') = push chunksize tid s x in Pushed r # run_adaptor chunksize tid s' ops)"
| "run_adaptor chunksize tid s (Pop # ops) =
     (let (r, s') = pop tid s in Popped r # run_adaptor chunksize tid s' ops)"

text \<open>The reference the adaptor is compared with: a single stack, top first. A push
  always succeeds; a pop returns the top, or reports failure on the empty stack.\<close>

fun run_stack :: "'a list \<Rightarrow> 'a wl_op list \<Rightarrow> 'a wl_obs list" where
  "run_stack st [] = []"
| "run_stack st (Push x # ops) = Pushed True # run_stack (x # st) ops"
| "run_stack [] (Pop # ops) = Popped None # run_stack [] ops"
| "run_stack (x # st) (Pop # ops) = Popped (Some x) # run_stack st ops"

text \<open>The items a worker can still pop, most recent first: its current chunk, then
  the chunks of the worklist from the head.\<close>

definition chunk_items :: "'a Chunk \<Rightarrow> 'a list" where
  "chunk_items c = rev (data c)"

definition pending :: "nat \<Rightarrow> 'a ChunkedAdaptor \<Rightarrow> 'a list" where
  "pending tid s =
     (case cur s tid of None \<Rightarrow> [] | Some n \<Rightarrow> chunk_items n)
     @ concat (map chunk_items (worklist s))"

definition published_nonempty :: "'a ChunkedAdaptor \<Rightarrow> bool" where
  "published_nonempty s = list_all (\<lambda>c. data c \<noteq> []) (worklist s)"

section \<open>Louvain clustering\<close>

subsection \<open>Machine types\<close>

type_synonym u64 = "64 word"
type_synonym u32 = "32 word"

text \<open>
  An access outside an array (\<^verbatim>\<open>LargeArray\<close>, \<^verbatim>\<open>std::vector\<close>, the
  arrays of the graph) is undefined behaviour in the source. Every such access is
  checked here and yields \<open>None\<close>; the option monad carries the fault to the caller.
\<close>

definition elem_at :: "'a list \<Rightarrow> nat \<Rightarrow> 'a option" where
  "elem_at xs i = (if i < length xs then Some (xs ! i) else None)"

definition upd_at :: "'a list \<Rightarrow> nat \<Rightarrow> ('a \<Rightarrow> 'a) \<Rightarrow> 'a list option" where
  "upd_at xs i f = (if i < length xs then Some (xs[i := f (xs ! i)]) else None)"

text \<open>\<^verbatim>\<open>galois::do_all\<close> and \<^verbatim>\<open>galois::for_each\<close>, run by one worker:
  the loop body is applied to the items in the given order, threading the state.\<close>

fun do_all :: "('s \<Rightarrow> 'i \<Rightarrow> 's option) \<Rightarrow> 'i list \<Rightarrow> 's \<Rightarrow> 's option" where
  "do_all body [] s = Some s"
| "do_all body (n # ns) s = (case body s n of None \<Rightarrow> None | Some s' \<Rightarrow> do_all body ns s')"

subsection \<open>double\<close>

text \<open>
  The values of an IEEE 754 binary64 \<^verbatim>\<open>double\<close>: finite numbers, the two infinities
  and NaN. A finite value is written \<open>Finite r\<close> with a real \<open>r\<close> and stands for the
  binary64 number nearest to \<open>r\<close> (that is \<open>r\<close> itself when \<open>r\<close> is representable, as
  every result of an operation is). Every operation rounds its exact result to the
  nearest binary64 number, ties to the even mantissa, with gradual underflow and
  overflow to infinity. The special values follow IEEE 754: a non-zero number over zero
  is an infinity, zero times infinity and infinity minus infinity are NaN, NaN
  propagates, every ordered comparison with NaN is false and NaN differs from
  everything. The sign of zero is not kept: the only division in the program has the
  divisor \<^verbatim>\<open>(double)\<close> of an unsigned integer, a positive zero.
\<close>

datatype double = Finite real | PosInf | NegInf | NaN

text \<open>
  Rounding of a positive real \<open>x\<close>. A binary64 number is \<open>n \<cdot> q\<close> with an integer
  \<open>n < 2\<^sup>5\<^sup>3\<close> and a quantum \<open>q = 2\<^sup>e\<close>, \<open>-1074 \<le> e \<le> 971\<close>. \<open>scale_up\<close> and \<open>scale_down\<close>
  look for the quantum of \<open>x\<close>: the one that brings \<open>x / q\<close> into \<open>[2\<^sup>5\<^sup>2, 2\<^sup>5\<^sup>3)\<close>, or the
  smallest one for a subnormal \<open>x\<close>, or the largest one when \<open>x\<close> is beyond the range.
  They start from \<open>e = 0\<close>, \<open>q = 1\<close> and return \<open>x / q\<close> with \<open>q\<close>.
\<close>

function scale_up :: "real \<Rightarrow> int \<Rightarrow> real \<Rightarrow> real \<times> real" where
  "scale_up x e q =
     (if 2 ^ 52 \<le> x \<or> e \<le> - 1074 then (x, q) else scale_up (2 * x) (e - 1) (q / 2))"
  by pat_completeness auto
termination
  by (relation "measure (\<lambda>(x, e, q). nat (e + 1074))") auto

function scale_down :: "real \<Rightarrow> int \<Rightarrow> real \<Rightarrow> real \<times> real" where
  "scale_down x e q =
     (if x < 2 ^ 53 \<or> 971 \<le> e then (x, q) else scale_down (x / 2) (e + 1) (2 * q))"
  by pat_completeness auto
termination
  by (relation "measure (\<lambda>(x, e, q). nat (971 - e))") auto

declare scale_up.simps [simp del] scale_down.simps [simp del]

text \<open>The nearest integer, ties to the even one.\<close>

definition round_even :: "real \<Rightarrow> int" where
  "round_even m =
     (let f = \<lfloor>m\<rfloor>; r = m - of_int f
      in if r < 1 / 2 then f else if 1 / 2 < r then f + 1 else if even f then f else f + 1)"

definition round_pos :: "real \<Rightarrow> double" where
  "round_pos x =
     (let (m, q) = (if 2 ^ 52 \<le> x then scale_down x 0 1 else scale_up x 0 1);
          y = of_int (round_even m) * q
      in if 2 ^ 1024 \<le> y then PosInf else Finite y)"

definition round64 :: "real \<Rightarrow> double" where
  "round64 x =
     (if x = 0 then Finite 0
      else if 0 < x then round_pos x
      else (case round_pos (- x) of Finite y \<Rightarrow> Finite (- y) | _ \<Rightarrow> NegInf))"

text \<open>The binary64 number a value stands for.\<close>

definition canon :: "double \<Rightarrow> double" where
  "canon x = (case x of Finite r \<Rightarrow> round64 r | _ \<Rightarrow> x)"

definition double_of_u64 :: "u64 \<Rightarrow> double" where
  "double_of_u64 w = round64 (real (unat w))"

fun dneg :: "double \<Rightarrow> double" where
  "dneg (Finite a) = Finite (- a)"
| "dneg PosInf = NegInf"
| "dneg NegInf = PosInf"
| "dneg NaN = NaN"

fun inf_of_sign :: "real \<Rightarrow> double \<Rightarrow> double" where
  "inf_of_sign a i = (if a = 0 then NaN else if 0 < a then i else dneg i)"

text \<open>The operations on binary64 numbers; \<open>dmul\<close>, \<open>dadd\<close>, \<open>ddiv\<close> and \<open>dless\<close> below
  apply them to the numbers their arguments stand for.\<close>

fun mul64 :: "double \<Rightarrow> double \<Rightarrow> double" where
  "mul64 NaN y = NaN"
| "mul64 x NaN = NaN"
| "mul64 (Finite a) (Finite b) = round64 (a * b)"
| "mul64 (Finite a) PosInf = inf_of_sign a PosInf"
| "mul64 (Finite a) NegInf = inf_of_sign a NegInf"
| "mul64 PosInf (Finite b) = inf_of_sign b PosInf"
| "mul64 NegInf (Finite b) = inf_of_sign b NegInf"
| "mul64 PosInf PosInf = PosInf"
| "mul64 PosInf NegInf = NegInf"
| "mul64 NegInf PosInf = NegInf"
| "mul64 NegInf NegInf = PosInf"

fun add64 :: "double \<Rightarrow> double \<Rightarrow> double" where
  "add64 NaN y = NaN"
| "add64 x NaN = NaN"
| "add64 (Finite a) (Finite b) = round64 (a + b)"
| "add64 (Finite a) y = y"
| "add64 x (Finite b) = x"
| "add64 PosInf PosInf = PosInf"
| "add64 NegInf NegInf = NegInf"
| "add64 PosInf NegInf = NaN"
| "add64 NegInf PosInf = NaN"

fun div64 :: "double \<Rightarrow> double \<Rightarrow> double" where
  "div64 NaN y = NaN"
| "div64 x NaN = NaN"
| "div64 (Finite a) (Finite b) = (if b = 0 then inf_of_sign a PosInf else round64 (a / b))"
| "div64 (Finite a) y = Finite 0"
| "div64 PosInf (Finite b) = (if 0 \<le> b then PosInf else NegInf)"
| "div64 NegInf (Finite b) = (if 0 \<le> b then NegInf else PosInf)"
| "div64 x y = NaN"

fun less64 :: "double \<Rightarrow> double \<Rightarrow> bool" where
  "less64 NaN y = False"
| "less64 x NaN = False"
| "less64 (Finite a) (Finite b) = (a < b)"
| "less64 x NegInf = False"
| "less64 PosInf y = False"
| "less64 NegInf y = True"
| "less64 x PosInf = True"

definition dmul :: "double \<Rightarrow> double \<Rightarrow> double" where
  "dmul x y = mul64 (canon x) (canon y)"

definition dadd :: "double \<Rightarrow> double \<Rightarrow> double" where
  "dadd x y = add64 (canon x) (canon y)"

definition dsub :: "double \<Rightarrow> double \<Rightarrow> double" where
  "dsub x y = dadd x (dneg y)"

definition ddiv :: "double \<Rightarrow> double \<Rightarrow> double" where
  "ddiv x y = div64 (canon x) (canon y)"

definition dless :: "double \<Rightarrow> double \<Rightarrow> bool" where
  "dless x y = less64 (canon x) (canon y)"

definition dgreater :: "double \<Rightarrow> double \<Rightarrow> bool" where
  "dgreater x y = dless y x"

definition deq :: "double \<Rightarrow> double \<Rightarrow> bool" where
  "deq x y = (canon x \<noteq> NaN \<and> canon y \<noteq> NaN \<and> canon x = canon y)"

subsection \<open>Node, Comm and the graph\<close>

record Node =
  prev_comm_ass :: u64
  curr_comm_ass :: u64
  degree_wt :: u64
  cluster_wt_internal :: u64

text \<open>The fields \<^verbatim>\<open>size\<close> and \<^verbatim>\<open>degree_wt\<close> of \<^verbatim>\<open>struct Comm\<close> carry
  the suffix \<open>_c\<close>. The atomics are plain values: one worker runs the loop bodies one
  after the other.\<close>

record Comm =
  size_c :: u64
  degree_wt_c :: u64

definition INF_VAL :: u64 where
  "INF_VAL = (- 1) div 2 - 1"

text \<open>
  Modelled from the spec: the graph type
  \<^verbatim>\<open>galois::graphs::LC_CSR_Graph<Node, uint32_t>\<close> is not among the sources. The spec
  describes it as an immutable CSR adjacency with a mutable payload per vertex and a
  weight per edge: all edges lie in one array, the edges of vertex \<open>n\<close> occupy the index
  range from \<open>edge_begin n\<close> to \<open>edge_end n\<close> (one past the last), and the range of vertex
  \<open>n\<close> starts where the range of \<open>n - 1\<close> ends. \<open>edgeIndData\<close> holds the end of every
  range, \<open>edgeDst\<close> and \<open>edgeData\<close> the destination and the weight of every edge. An edge
  iterator is an index into the edge array and a \<^verbatim>\<open>GNode\<close> is a vertex index.
\<close>

record Graph =
  nodeData :: "Node list"
  edgeIndData :: "nat list"
  edgeDst :: "nat list"
  edgeData :: "u32 list"

definition graph_size :: "Graph \<Rightarrow> nat" where
  "graph_size g = length (nodeData g)"

definition iterate :: "Graph \<Rightarrow> nat list" where
  "iterate g = [0..<graph_size g]"

definition getData :: "Graph \<Rightarrow> nat \<Rightarrow> Node option" where
  "getData g n = elem_at (nodeData g) n"

definition edge_begin :: "Graph \<Rightarrow> nat \<Rightarrow> nat option" where
  "edge_begin g n = (if n = 0 then Some 0 else elem_at (edgeIndData g) (n - 1))"

definition edge_end :: "Graph \<Rightarrow> nat \<Rightarrow> nat option" where
  "edge_end g n = elem_at (edgeIndData g) n"

definition getEdgeDst :: "Graph \<Rightarrow> nat \<Rightarrow> nat option" where
  "getEdgeDst g ii = elem_at (edgeDst g) ii"

definition getEdgeData :: "Graph \<Rightarrow> nat \<Rightarrow> u32 option" where
  "getEdgeData g ii = elem_at (edgeData g) ii"

text \<open>\<^verbatim>\<open>std::distance(edge_begin(n), edge_end(n))\<close> stored in a
  \<^verbatim>\<open>uint64_t\<close>.\<close>

definition edge_distance :: "Graph \<Rightarrow> nat \<Rightarrow> u64 option" where
  "edge_distance g n =
     do { b \<leftarrow> edge_begin g n; e \<leftarrow> edge_end g n; Some (word_of_nat e - word_of_nat b) }"

text \<open>The edge iterators of \<open>n\<close> as a loop \<^verbatim>\<open>for (ii = edge_begin(n); ii != edge_end(n); ++ii)\<close>
  visits them (the ranges of a CSR graph never run backwards).\<close>

definition edges :: "Graph \<Rightarrow> nat \<Rightarrow> nat list option" where
  "edges g n = do { b \<leftarrow> edge_begin g n; e \<leftarrow> edge_end g n; Some [b..<e] }"

definition set_node :: "Graph \<Rightarrow> nat \<Rightarrow> (Node \<Rightarrow> Node) \<Rightarrow> Graph option" where
  "set_node g n f = map_option (\<lambda>nd. g\<lparr>nodeData := nd\<rparr>) (upd_at (nodeData g) n f)"

subsection \<open>vertexFollowing\<close>

definition init_curr_comm :: "Graph \<Rightarrow> Graph option" where
  "init_curr_comm g =
     do_all (\<lambda>g n. set_node g n (\<lambda>d. d\<lparr>curr_comm_ass := word_of_nat n\<rparr>)) (iterate g) g"

definition vertexFollowing_body ::
  "Graph \<Rightarrow> u64 list \<times> u64 \<Rightarrow> nat \<Rightarrow> (u64 list \<times> u64) option" where
  "vertexFollowing_body graph st n =
     (case st of (clusters, isolatedNodes) \<Rightarrow>
      do {
        degree \<leftarrow> edge_distance graph n;
        if degree = 0 then
          do { clusters' \<leftarrow> upd_at clusters n (\<lambda>_. - 1);
               Some (clusters', isolatedNodes + 1) }
        else if degree = 1 then
          do {
            e \<leftarrow> edge_end graph n;
            dst \<leftarrow> getEdgeDst graph e;
            dst_degree \<leftarrow> edge_distance graph dst;
            if dst_degree > 1 \<or> n > dst then
              do { d \<leftarrow> getData graph dst;
                   clusters' \<leftarrow> upd_at clusters n (\<lambda>_. curr_comm_ass d);
                   Some (clusters', isolatedNodes + 1) }
            else Some (clusters, isolatedNodes)
          }
        else Some (clusters, isolatedNodes)
      })"

text \<open>The function returns the count; the model also returns the array
  \<^verbatim>\<open>clusters\<close> and the graph, which the source changes through references.\<close>

definition vertexFollowing :: "Graph \<Rightarrow> u64 list \<Rightarrow> (u64 \<times> u64 list \<times> Graph) option" where
  "vertexFollowing graph clusters =
     do {
       graph' \<leftarrow> init_curr_comm graph;
       (clusters', isolatedNodes) \<leftarrow>
          do_all (vertexFollowing_body graph') (iterate graph') (clusters, 0);
       Some (isolatedNodes, clusters', graph')
     }"

subsection \<open>sumVertexDegreeWeight and calConstantForSecondTerm\<close>

definition sumVertexDegreeWeight_body ::
  "Graph \<times> Comm list \<Rightarrow> nat \<Rightarrow> (Graph \<times> Comm list) option" where
  "sumVertexDegreeWeight_body st n =
     (case st of (graph, c_info) \<Rightarrow>
      do {
        es \<leftarrow> edges graph n;
        total_weight \<leftarrow>
          do_all (\<lambda>total_weight ii.
                    do { w \<leftarrow> getEdgeData graph ii; Some (total_weight + ucast w) }) es 0;
        graph' \<leftarrow> set_node graph n (\<lambda>n_data. n_data\<lparr>degree_wt := total_weight\<rparr>);
        c_info' \<leftarrow> upd_at c_info n (\<lambda>c. c\<lparr>degree_wt_c := total_weight\<rparr>);
        c_info'' \<leftarrow> upd_at c_info' n (\<lambda>c. c\<lparr>size_c := 1\<rparr>);
        Some (graph', c_info'')
      })"

definition sumVertexDegreeWeight :: "Graph \<Rightarrow> Comm list \<Rightarrow> (Graph \<times> Comm list) option" where
  "sumVertexDegreeWeight graph c_info =
     do_all sumVertexDegreeWeight_body (iterate graph) (graph, c_info)"

definition calConstantForSecondTerm :: "Graph \<Rightarrow> double" where
  "calConstantForSecondTerm graph =
     (let total_edge_weight_twice = fold (\<lambda>d local_weight. local_weight + degree_wt d)
                                      (nodeData graph) (0 :: u64)
      in ddiv (Finite 1) (double_of_u64 total_edge_weight_twice))"

subsection \<open>maxModularity\<close>

text \<open>\<^verbatim>\<open>std::map<uint64_t, uint64_t>\<close>: the list of its entries in ascending key
  order, which is the order its iterators visit. \<open>map_assign\<close> is
  \<^verbatim>\<open>m[key] = val\<close>, \<open>map_find\<close> is \<^verbatim>\<open>m.find(key)\<close>.\<close>

type_synonym cluster_map = "(u64 \<times> u64) list"

fun map_assign :: "u64 \<Rightarrow> u64 \<Rightarrow> cluster_map \<Rightarrow> cluster_map" where
  "map_assign k v [] = [(k, v)]"
| "map_assign k v ((k', v') # m) =
     (if k < k' then (k, v) # (k', v') # m
      else if k = k' then (k, v) # m
      else (k', v') # map_assign k v m)"

definition map_find :: "cluster_map \<Rightarrow> u64 \<Rightarrow> u64 option" where
  "map_find m k = map_of m k"

text \<open>The expression
  \<^verbatim>\<open>2 * constant * (eiy - eix) + 2 * degree_wt * (ax - ay) * constant * constant\<close>
  with the grouping and the types of C++: \<^verbatim>\<open>2 * degree_wt\<close> is a product of
  unsigned 64-bit integers, everything else is \<^verbatim>\<open>double\<close>. The parameter
  \<^verbatim>\<open>degree_wt\<close> of \<^verbatim>\<open>maxModularity\<close> is written \<open>deg_wt\<close>.\<close>

definition gain :: "double \<Rightarrow> u64 \<Rightarrow> double \<Rightarrow> double \<Rightarrow> double \<Rightarrow> double \<Rightarrow> double" where
  "gain constant deg_wt eix ax eiy ay =
     dadd (dmul (dmul (Finite 2) constant) (dsub eiy eix))
          (dmul (dmul (dmul (double_of_u64 (2 * deg_wt)) (dsub ax ay)) constant) constant)"

definition maxModularity_step ::
  "Comm list \<Rightarrow> u64 list \<Rightarrow> u64 \<Rightarrow> u64 \<Rightarrow> double \<Rightarrow> double \<Rightarrow> double \<Rightarrow>
   double \<times> u64 \<Rightarrow> u64 \<times> u64 \<Rightarrow> (double \<times> u64) option" where
  "maxModularity_step c_info counter deg_wt sc constant eix ax st stored_already =
     (case (st, stored_already) of ((max_gain, max_index), (first, second)) \<Rightarrow>
      if sc \<noteq> first then
        do {
          cy \<leftarrow> elem_at c_info (unat first);
          eiy_w \<leftarrow> elem_at counter (unat second);
          let ay = double_of_u64 (degree_wt_c cy);
          let eiy = double_of_u64 eiy_w;
          let cur_gain = gain constant deg_wt eix ax eiy ay;
          if dgreater cur_gain max_gain \<or>
             (deq cur_gain max_gain \<and> \<not> deq cur_gain (Finite 0) \<and> first < max_index)
          then Some (cur_gain, first)
          else Some (max_gain, max_index)
        }
      else Some (max_gain, max_index))"

text \<open>The loop is a \<^verbatim>\<open>do ... while\<close> that dereferences
  \<^verbatim>\<open>cluster_local_map.begin()\<close> before any test: on an empty map that is undefined
  behaviour.\<close>

definition maxModularity ::
  "cluster_map \<Rightarrow> u64 list \<Rightarrow> u64 \<Rightarrow> Comm list \<Rightarrow> u64 \<Rightarrow> u64 \<Rightarrow> double \<Rightarrow> u64 option" where
  "maxModularity cluster_local_map counter self_loop_wt c_info deg_wt sc constant =
     do {
       c0 \<leftarrow> elem_at counter 0;
       csc \<leftarrow> elem_at c_info (unat sc);
       let eix = double_of_u64 (c0 - self_loop_wt);
       let ax = double_of_u64 (degree_wt_c csc - deg_wt);
       (max_gain, max_index) \<leftarrow>
         (if cluster_local_map = [] then None
          else do_all (maxModularity_step c_info counter deg_wt sc constant eix ax)
                 cluster_local_map (Finite 0, sc));
       cm \<leftarrow> elem_at c_info (unat max_index);
       Some (if size_c cm = 1 \<and> size_c csc = 1 \<and> max_index > sc then sc else max_index)
     }"

subsection \<open>The body of the Louvain iteration\<close>

text \<open>One round of the edge loop that fills \<^verbatim>\<open>cluster_local_map\<close> and
  \<^verbatim>\<open>counter\<close>. The state is
  \<open>(cluster_local_map, counter, num_unique_clusters, self_loop_wt)\<close>.\<close>

definition scan_edge ::
  "Graph \<Rightarrow> nat \<Rightarrow> cluster_map \<times> u64 list \<times> u64 \<times> u64 \<Rightarrow> nat \<Rightarrow>
   (cluster_map \<times> u64 list \<times> u64 \<times> u64) option" where
  "scan_edge graph n st ii =
     (case st of (cluster_local_map, counter, num_unique_clusters, self_loop_wt) \<Rightarrow>
      do {
        dst \<leftarrow> getEdgeDst graph ii;
        edge_wt \<leftarrow> getEdgeData graph ii;
        let self_loop_wt' = (if dst = n then self_loop_wt + ucast edge_wt else self_loop_wt);
        d \<leftarrow> getData graph dst;
        (case map_find cluster_local_map (curr_comm_ass d) of
           Some second \<Rightarrow>
             do { counter' \<leftarrow> upd_at counter (unat second) (\<lambda>c. c + ucast edge_wt);
                  Some (cluster_local_map, counter', num_unique_clusters, self_loop_wt') }
         | None \<Rightarrow>
             Some (map_assign (curr_comm_ass d) num_unique_clusters cluster_local_map,
                   counter @ [ucast edge_wt], num_unique_clusters + 1, self_loop_wt'))
      })"

text \<open>The update of the community table, lines
  \<^verbatim>\<open>galois::atomicAdd(c_info[local_target].degree_wt, ...)\<close> to
  \<^verbatim>\<open>galois::atomicSubtract(c_info[n_data.curr_comm_ass].size, 1)\<close>.\<close>

definition migrate :: "Comm list \<Rightarrow> u64 \<Rightarrow> Node \<Rightarrow> Comm list option" where
  "migrate c_info local_target n_data =
     do {
       c1 \<leftarrow> upd_at c_info (unat local_target)
               (\<lambda>c. c\<lparr>degree_wt_c := degree_wt_c c + degree_wt n_data\<rparr>);
       c2 \<leftarrow> upd_at c1 (unat local_target) (\<lambda>c. c\<lparr>size_c := size_c c + 1\<rparr>);
       c3 \<leftarrow> upd_at c2 (unat (curr_comm_ass n_data))
               (\<lambda>c. c\<lparr>degree_wt_c := degree_wt_c c - degree_wt n_data\<rparr>);
       upd_at c3 (unat (curr_comm_ass n_data)) (\<lambda>c. c\<lparr>size_c := size_c c - 1\<rparr>)
     }"

text \<open>The body of \<^verbatim>\<open>galois::for_each\<close> for vertex \<open>n\<close>. The first edge loop of
  the source only takes locks and is not modelled.\<close>

definition louvain_body ::
  "double \<Rightarrow> Graph \<times> Comm list \<Rightarrow> nat \<Rightarrow> (Graph \<times> Comm list) option" where
  "louvain_body constant_for_second_term st n =
     (case st of (graph, c_info) \<Rightarrow>
      do {
        n_data \<leftarrow> getData graph n;
        degree \<leftarrow> edge_distance graph n;
        local_target \<leftarrow>
          (if degree > 0 then
             do {
               es \<leftarrow> edges graph n;
               (cluster_local_map, counter, num_unique_clusters, self_loop_wt) \<leftarrow>
                  do_all (scan_edge graph n) es
                    (map_assign (curr_comm_ass n_data) 0 [], [0], 1, 0);
               maxModularity cluster_local_map counter self_loop_wt c_info
                 (degree_wt n_data) (curr_comm_ass n_data) constant_for_second_term
             }
           else Some (- 1));
        c_info' \<leftarrow>
          (if local_target \<noteq> curr_comm_ass n_data \<and> local_target \<noteq> - 1
           then migrate c_info local_target n_data
           else Some c_info);
        graph' \<leftarrow> set_node graph n (\<lambda>d. d\<lparr>curr_comm_ass := local_target\<rparr>);
        Some (graph', c_info')
      })"

definition louvain_iteration ::
  "double \<Rightarrow> nat list \<Rightarrow> Graph \<times> Comm list \<Rightarrow> (Graph \<times> Comm list) option" where
  "louvain_iteration constant_for_second_term order st =
     do_all (louvain_body constant_for_second_term) order st"

subsection \<open>Modularity and the convergence loop of algoLouvainWithLocking\<close>

text \<open>\<^verbatim>\<open>cluster_wt_internal[n]\<close> after the pass that follows the iteration: the
  weights of the edges of \<open>n\<close> whose destination is in the community of \<open>n\<close>.\<close>

definition cluster_wt_internal_of :: "Graph \<Rightarrow> nat \<Rightarrow> u64 option" where
  "cluster_wt_internal_of graph n =
     do {
       n_data \<leftarrow> getData graph n;
       es \<leftarrow> edges graph n;
       do_all (\<lambda>cw ii.
                 do { dst \<leftarrow> getEdgeDst graph ii;
                      d \<leftarrow> getData graph dst;
                      if curr_comm_ass d = curr_comm_ass n_data
                      then do { w \<leftarrow> getEdgeData graph ii; Some (cw + ucast w) }
                      else Some cw }) es 0
     }"

text \<open>The pass that adds up \<^verbatim>\<open>e_xx\<close> and \<^verbatim>\<open>a2_x\<close>; the product
  \<^verbatim>\<open>c_info[n].degree_wt * c_info[n].degree_wt\<close> is one of unsigned 64-bit
  integers.\<close>

definition modularity_sums :: "Graph \<Rightarrow> Comm list \<Rightarrow> (double \<times> double) option" where
  "modularity_sums graph c_info =
     do_all (\<lambda>st n. case st of (e_xx, a2_x) \<Rightarrow>
               do { cw \<leftarrow> cluster_wt_internal_of graph n;
                    c \<leftarrow> elem_at c_info n;
                    Some (dadd e_xx (double_of_u64 cw),
                          dadd a2_x (double_of_u64 (degree_wt_c c * degree_wt_c c))) })
       (iterate graph) (Finite 0, Finite 0)"

definition curr_modularity :: "double \<Rightarrow> double \<Rightarrow> double \<Rightarrow> double" where
  "curr_modularity constant_for_second_term e_xx a2_x =
     dsub (dmul e_xx constant_for_second_term)
          (dmul (dmul a2_x constant_for_second_term) constant_for_second_term)"

text \<open>
  The \<^verbatim>\<open>while(true)\<close> loop. \<open>sched k\<close> is the order in which the
  \<^verbatim>\<open>for_each\<close> of round \<open>k\<close> (counted from 0) runs its bodies. The result is
  \<open>None\<close> when the loop never leaves, \<open>Some None\<close> when a round makes an access out of
  range, and \<open>Some (Some (prev_mod, num_iter))\<close> when the loop breaks: the returned
  value and the number of rounds. The resets at the start of a round and the printing
  are not modelled (the line that prints \<^verbatim>\<open>c_info[5]\<close> reads outside the
  array on a graph of fewer than six vertices).
\<close>

partial_function (option) louvain_loop ::
  "(nat \<Rightarrow> nat list) \<Rightarrow> double \<Rightarrow> double \<Rightarrow> Graph \<times> Comm list \<Rightarrow> double \<Rightarrow> nat \<Rightarrow>
   (double \<times> nat) option option" where
  "louvain_loop sched constant_for_second_term threshold_mod st prev_mod num_iter =
     (case louvain_iteration constant_for_second_term (sched num_iter) st of
        None \<Rightarrow> Some None
      | Some (graph', c_info') \<Rightarrow>
          (case modularity_sums graph' c_info' of
             None \<Rightarrow> Some None
           | Some (e_xx, a2_x) \<Rightarrow>
               (let curr_mod = curr_modularity constant_for_second_term e_xx a2_x in
                if dless (dsub curr_mod prev_mod) threshold_mod
                then Some (Some (prev_mod, num_iter + 1))
                else louvain_loop sched constant_for_second_term threshold_mod
                       (graph', c_info') curr_mod (num_iter + 1))))"

definition init_comm_ass :: "Graph \<Rightarrow> Graph option" where
  "init_comm_ass g =
     do_all (\<lambda>g n. set_node g n
                (\<lambda>d. d\<lparr>curr_comm_ass := word_of_nat n, prev_comm_ass := word_of_nat n\<rparr>))
       (iterate g) g"

text \<open>\<^verbatim>\<open>c_info.allocateBlocked(graph.size())\<close> gives an array whose entries
  \<^verbatim>\<open>sumVertexDegreeWeight\<close> overwrites before anything reads them; it starts out
  here with zeros.\<close>

definition louvain_init :: "Graph \<Rightarrow> (Graph \<times> Comm list) option" where
  "louvain_init graph =
     do { g \<leftarrow> init_comm_ass graph;
          sumVertexDegreeWeight g (replicate (graph_size graph) \<lparr>size_c = 0, degree_wt_c = 0\<rparr>) }"

definition algoLouvainWithLocking ::
  "(nat \<Rightarrow> nat list) \<Rightarrow> Graph \<Rightarrow> u64 list \<Rightarrow> double \<Rightarrow> double \<Rightarrow> (double \<times> nat) option option" where
  "algoLouvainWithLocking sched graph clusters lower threshold =
     (case louvain_init graph of
        None \<Rightarrow> Some None
      | Some (g, c_info) \<Rightarrow>
          louvain_loop sched (calConstantForSecondTerm g) threshold (g, c_info) lower 0)"

subsection \<open>runMultiPhaseLouvainAlgorithm and main\<close>

text \<open>
  What a run of the driver does that can be seen from outside: the line
  \<^verbatim>\<open>Starting Phase : <phase>\<close> it prints at the start of every round of its loop, and
  its calls of \<^verbatim>\<open>algoLouvainWithLocking\<close> with their arguments. \<open>call_engine\<close> is such
  a call: it runs the engine and puts the call on record.
\<close>

datatype event = StartingPhase "32 word" | EngineCall Graph "u64 list" double double

definition call_engine ::
  "(nat \<Rightarrow> nat list) \<Rightarrow> Graph \<Rightarrow> u64 list \<Rightarrow> double \<Rightarrow> double \<Rightarrow> event list \<Rightarrow>
   (double \<times> nat) option option \<times> event list" where
  "call_engine sched graph clusters lower threshold tr =
     (algoLouvainWithLocking sched graph clusters lower threshold,
      tr @ [EngineCall graph clusters lower threshold])"

text \<open>
  \<^verbatim>\<open>while(true) { body }\<close>: the body reports whether it ended in a \<^verbatim>\<open>break\<close>. As
  in \<open>louvain_loop\<close>, \<open>None\<close> is a run that never returns and \<open>Some None\<close> a run that made
  an access out of range.
\<close>

partial_function (option) while_true ::
  "('s \<Rightarrow> (bool \<times> 's) option option) \<Rightarrow> 's \<Rightarrow> 's option option" where
  "while_true body s =
     (case body s of
        None \<Rightarrow> None
      | Some None \<Rightarrow> Some None
      | Some (Some (break, s')) \<Rightarrow> if break then Some (Some s') else while_true body s')"

record driver_state =
  prev_mod :: double
  curr_mod :: double
  phase :: "32 word"
  clusters_local :: "u64 list"
  trace :: "event list"

text \<open>The body of the loop of the driver; it ends in the unconditional
  \<^verbatim>\<open>break\<close>.\<close>

definition multi_phase_body ::
  "(nat \<Rightarrow> nat list) \<Rightarrow> Graph \<Rightarrow> u64 \<Rightarrow> double \<Rightarrow> driver_state \<Rightarrow>
   (bool \<times> driver_state) option option" where
  "multi_phase_body sched graph min_graph_size c_threshold st =
     (let st1 = st\<lparr>trace := trace st @ [StartingPhase (phase st)]\<rparr>;
          st2 = st1\<lparr>prev_mod := curr_mod st1\<rparr>
      in if word_of_nat (graph_size graph) > min_graph_size
         then (case call_engine sched graph (clusters_local st2) (curr_mod st2) c_threshold
                      (trace st2) of
                 (None, tr) \<Rightarrow> None
               | (Some None, tr) \<Rightarrow> Some None
               | (Some (Some (q, num_iter)), tr) \<Rightarrow>
                   Some (Some (True, st2\<lparr>curr_mod := q, trace := tr\<rparr>)))
         else Some (Some (True, st2)))"

definition runMultiPhaseLouvainAlgorithm ::
  "(nat \<Rightarrow> nat list) \<Rightarrow> Graph \<Rightarrow> u64 list \<Rightarrow> u64 \<Rightarrow> double \<Rightarrow> driver_state option option" where
  "runMultiPhaseLouvainAlgorithm sched graph clusters_orig min_graph_size c_threshold =
     while_true (multi_phase_body sched graph min_graph_size c_threshold)
       \<lparr>prev_mod = Finite (- 1), curr_mod = Finite (- 1), phase = 1,
        clusters_local = replicate (graph_size graph) INF_VAL, trace = []\<rparr>"

text \<open>\<^verbatim>\<open>main\<close> after the graph has been read. \<open>uninit\<close> is the content of the
  freshly allocated array \<^verbatim>\<open>clusters\<close>, which nothing initialises.\<close>

definition main ::
  "(nat \<Rightarrow> nat list) \<Rightarrow> u64 list \<Rightarrow> Graph \<Rightarrow> bool \<Rightarrow> double \<Rightarrow> driver_state option option" where
  "main sched uninit graph enable_VF c_threshold =
     (case (if enable_VF
            then map_option (\<lambda>r. snd (snd r)) (vertexFollowing graph uninit)
            else Some graph) of
        None \<Rightarrow> Some None
      | Some graph1 \<Rightarrow>
          (case do_all (\<lambda>g n. set_node g n (\<lambda>d. d\<lparr>curr_comm_ass := INF_VAL\<rparr>))
                  (iterate graph1) graph1 of
             None \<Rightarrow> Some None
           | Some graph2 \<Rightarrow>
               (let clusters_orig = replicate (graph_size graph2) INF_VAL;
                    min_graph_size = 100
                in runMultiPhaseLouvainAlgorithm sched graph2 clusters_orig min_graph_size
                     c_threshold)))"

subsection \<open>Graphs used as concrete inputs\<close>

definition node0 :: Node where
  "node0 = \<lparr>prev_comm_ass = 0, curr_comm_ass = 0, degree_wt = 0, cluster_wt_internal = 0\<rparr>"

text \<open>The path \<open>0 \<midarrow> 1\<close> with one edge of weight 1 (stored in both directions).\<close>

definition path_graph :: Graph where
  "path_graph = \<lparr>nodeData = [node0, node0], edgeIndData = [1, 2], edgeDst = [1, 0],
                  edgeData = [1, 1]\<rparr>"

text \<open>The triangle \<open>1, 2, 3\<close> with the pendant vertex \<open>0\<close> attached to \<open>1\<close>, unit
  weights.\<close>

definition pendant_graph :: Graph where
  "pendant_graph = \<lparr>nodeData = [node0, node0, node0, node0], edgeIndData = [1, 4, 6, 8],
                     edgeDst = [1, 0, 2, 3, 1, 3, 1, 2],
                     edgeData = [1, 1, 1, 1, 1, 1, 1, 1]\<rparr>"

text \<open>Two vertices and no edge.\<close>

definition two_isolated :: Graph where
  "two_isolated = \<lparr>nodeData = [node0, node0], edgeIndData = [0, 0], edgeDst = [],
                    edgeData = []\<rparr>"

subsection \<open>Notions used to state the properties\<close>

text \<open>The gain \<open>\<Delta>(y) = 2\<cdot>constant\<cdot>(e_iy - e_ix) + 2\<cdot>degree_wt\<cdot>(a_x - a_y)\<cdot>constant\<^sup>2\<close> of
  community \<open>y\<close>, written out in binary64 arithmetic: the products are taken from left
  to right, the square as two multiplications, and \<open>2\<cdot>degree_wt\<close> in 64-bit integers.
  Here \<open>e_ix = counter[0] - self_loop_wt\<close> and \<open>a_x = c_info[sc].degree_wt - degree_wt\<close>
  (differences of unsigned 64-bit integers, then converted), \<open>e_iy = counter[idx(y)]\<close>
  with \<open>idx(y)\<close> the value stored for \<open>y\<close> in the map, and \<open>a_y = c_info[y].degree_wt\<close>.\<close>

definition delta ::
  "cluster_map \<Rightarrow> u64 list \<Rightarrow> u64 \<Rightarrow> Comm list \<Rightarrow> u64 \<Rightarrow> u64 \<Rightarrow> double \<Rightarrow> u64 \<Rightarrow> double" where
  "delta cluster_local_map counter self_loop_wt c_info deg_wt sc constant y =
     (let e_ix = double_of_u64 (counter ! 0 - self_loop_wt);
          a_x = double_of_u64 (degree_wt_c (c_info ! unat sc) - deg_wt);
          e_iy = double_of_u64 (counter ! unat (the (map_of cluster_local_map y)));
          a_y = double_of_u64 (degree_wt_c (c_info ! unat y))
      in dadd (dmul (dmul (Finite 2) constant) (dsub e_iy e_ix))
              (dmul (dmul (dmul (double_of_u64 (2 * deg_wt)) (dsub a_x a_y)) constant)
                 constant))"

text \<open>What the loop of \<^verbatim>\<open>maxModularity\<close> has established once the keys in \<open>P\<close> are
  behind it, for a gain function \<open>G\<close>: either the candidate is still \<open>sc\<close> with gain 0,
  or it is a key of \<open>P\<close> with a positive gain; no key of \<open>P\<close> has a greater gain; and
  among the keys of \<open>P\<close> with the same gain the candidate has the least id.\<close>

definition best_so_far :: "(u64 \<Rightarrow> double) \<Rightarrow> u64 \<Rightarrow> u64 set \<Rightarrow> double \<times> u64 \<Rightarrow> bool" where
  "best_so_far G sc P st =
     (case st of (max_gain, max_index) \<Rightarrow>
        ((max_index = sc \<and> max_gain = Finite 0) \<or>
         (max_index \<in> P \<and> max_index \<noteq> sc \<and> max_gain = G max_index \<and> dless (Finite 0) max_gain))
      \<and> (\<forall>y\<in>P. y \<noteq> sc \<longrightarrow> \<not> dless max_gain (G y))
      \<and> (\<forall>y\<in>P. y \<noteq> sc \<and> max_index \<noteq> sc \<and> deq (G y) max_gain \<longrightarrow> max_index \<le> y))"

text \<open>The state of the edge scan of the iteration body is in order, for a property \<open>K\<close>
  of community ids: the map and the counter are not empty, the counter has
  \<open>num_unique_clusters\<close> entries, every key of the map has the property \<open>K\<close> and every
  value is an index of the counter.\<close>

definition scan_ok :: "(u64 \<Rightarrow> bool) \<Rightarrow> cluster_map \<times> u64 list \<times> u64 \<times> u64 \<Rightarrow> bool" where
  "scan_ok K st =
     (case st of (m, counter, nu, slw) \<Rightarrow>
        m \<noteq> [] \<and> counter \<noteq> [] \<and> unat nu = length counter
      \<and> (\<forall>(k, i)\<in>set m. K k \<and> unat i < length counter))"

text \<open>The number of edges of a vertex, and the members, the size and the weight of a
  community as the vertices' \<open>curr_comm_ass\<close> define them.\<close>

definition degree :: "Graph \<Rightarrow> nat \<Rightarrow> nat" where
  "degree g n = (case edges g n of Some es \<Rightarrow> length es | None \<Rightarrow> 0)"

definition comm_members :: "Graph \<Rightarrow> u64 \<Rightarrow> Node list" where
  "comm_members g c = filter (\<lambda>d. curr_comm_ass d = c) (nodeData g)"

definition comm_count :: "Graph \<Rightarrow> u64 \<Rightarrow> nat" where
  "comm_count g c = length (comm_members g c)"

definition comm_weight :: "Graph \<Rightarrow> u64 \<Rightarrow> u64" where
  "comm_weight g c = sum_list (map degree_wt (comm_members g c))"

text \<open>
  The graphs the engine is meant for. The arrays fit together as a CSR graph (one edge
  range per vertex, ranges inside the edge array, a weight for every edge), the number
  of vertices leaves \<open>-1\<close> free as a marker, and every edge leads to a vertex that has
  an edge itself, as it does in a symmetric graph.
\<close>

definition wf_graph :: "Graph \<Rightarrow> bool" where
  "wf_graph g \<longleftrightarrow>
     length (edgeIndData g) = graph_size g
   \<and> graph_size g < 2 ^ 64 - 1
   \<and> length (edgeDst g) < 2 ^ 64 - 1
   \<and> length (edgeData g) = length (edgeDst g)
   \<and> (\<forall>n<graph_size g. \<forall>b e. edge_begin g n = Some b \<and> edge_end g n = Some e \<longrightarrow>
         b \<le> e \<and> e \<le> length (edgeDst g)
       \<and> (\<forall>ii. b \<le> ii \<and> ii < e \<longrightarrow>
             edgeDst g ! ii < graph_size g \<and> 0 < degree g (edgeDst g ! ii)))"

text \<open>
  The invariant of the iteration, for a graph and a community table: every vertex with
  an edge is in a community that is an index of the table and the id of a vertex with
  an edge; a vertex without an edge has weight 0 and is either still in its own
  community or already marked \<open>-1\<close>; and for every index \<open>c\<close> of the table the record
  holds the weight of community \<open>c\<close> and, in \<open>size\<close>, the number of its members, plus
  one when vertex \<open>c\<close> is marked \<open>-1\<close>.
\<close>

definition comm_inv :: "Graph \<times> Comm list \<Rightarrow> bool" where
  "comm_inv st =
     (case st of (g, c_info) \<Rightarrow>
        wf_graph g \<and> length c_info = graph_size g
      \<and> (\<forall>v<graph_size g.
            (0 < degree g v \<longrightarrow> unat (curr_comm_ass (nodeData g ! v)) < graph_size g
                \<and> 0 < degree g (unat (curr_comm_ass (nodeData g ! v))))
          \<and> (degree g v = 0 \<longrightarrow> degree_wt (nodeData g ! v) = 0
                \<and> (curr_comm_ass (nodeData g ! v) = word_of_nat v
                     \<or> curr_comm_ass (nodeData g ! v) = - 1)))
      \<and> (\<forall>c<graph_size g.
            degree_wt_c (c_info ! c) = comm_weight g (word_of_nat c)
          \<and> size_c (c_info ! c) =
              word_of_nat (comm_count g (word_of_nat c))
              + (if curr_comm_ass (nodeData g ! c) = - 1 then 1 else 0)))"

text \<open>Two graphs that differ in the vertex payloads only.\<close>

definition same_topology :: "Graph \<Rightarrow> Graph \<Rightarrow> bool" where
  "same_topology g0 g \<longleftrightarrow>
     edgeIndData g = edgeIndData g0 \<and> edgeDst g = edgeDst g0 \<and> edgeData g = edgeData g0
   \<and> length (nodeData g) = length (nodeData g0)"

text \<open>Several rounds of the iteration, one order of the bodies per round: the state of
  the convergence loop of \<^verbatim>\<open>algoLouvainWithLocking\<close> at its iteration boundaries.\<close>

definition louvain_rounds ::
  "double \<Rightarrow> nat list list \<Rightarrow> Graph \<times> Comm list \<Rightarrow> (Graph \<times> Comm list) option" where
  "louvain_rounds constant_for_second_term orders st =
     do_all (\<lambda>st order. louvain_iteration constant_for_second_term order st) orders st"

text \<open>The edge \<open>0 \<midarrow> 1\<close> of weight 1 and the isolated vertex 2.\<close>

definition lone_vertex_graph :: Graph where
  "lone_vertex_graph = \<lparr>nodeData = [node0, node0, node0], edgeIndData = [1, 2, 2],
                         edgeDst = [1, 0], edgeData = [1, 1]\<rparr>"

text \<open>The graph after the pass of \<^verbatim>\<open>main\<close> that sets every \<^verbatim>\<open>curr_comm_ass\<close> to
  \<^verbatim>\<open>INF_VAL\<close>.\<close>

definition reset_comm :: "Graph \<Rightarrow> Graph" where
  "reset_comm g = g\<lparr>nodeData := map (\<lambda>d. d\<lparr>curr_comm_ass := INF_VAL\<rparr>) (nodeData g)\<rparr>"

text \<open>
  A run of exactly one phase: the line \<^verbatim>\<open>Starting Phase : 1\<close>, then one call of the
  engine on the given graph, with the fresh array of \<^verbatim>\<open>INF_VAL\<close> and the lower bound
  \<open>-1\<close>, when the graph has more than \<open>min_graph_size\<close> vertices and no call otherwise,
  and nothing after it. The run ends with the modularity the engine returned in
  \<open>curr_mod\<close>; it does not return when the engine does not, and it faults when the
  engine does.
\<close>

definition one_phase ::
  "(nat \<Rightarrow> nat list) \<Rightarrow> Graph \<Rightarrow> u64 \<Rightarrow> double \<Rightarrow> driver_state option option" where
  "one_phase sched graph min_graph_size c_threshold =
     (let init = replicate (graph_size graph) INF_VAL;
          st = \<lparr>prev_mod = Finite (- 1), curr_mod = Finite (- 1), phase = 1,
                clusters_local = init, trace = [StartingPhase 1]\<rparr>
      in if unat min_graph_size < graph_size graph
         then (case algoLouvainWithLocking sched graph init (Finite (- 1)) c_threshold of
                 None \<Rightarrow> None
               | Some None \<Rightarrow> Some None
               | Some (Some (q, num_iter)) \<Rightarrow>
                   Some (Some (st\<lparr>curr_mod := q,
                      trace := [StartingPhase 1,
                                EngineCall graph init (Finite (- 1)) c_threshold]\<rparr>)))
         else Some (Some st))"

section \<open>Worklist theorems\<close>

lemma push_pending:
  assumes "0 < chunksize" "published_nonempty s"
  shows "fst (push chunksize tid s x) = True
       \<and> pending tid (snd (push chunksize tid s x)) = x # pending tid s
       \<and> published_nonempty (snd (push chunksize tid s x))"
  using assms
  by (auto simp: push_def push_fresh_def Chunk_push_def Chunk_new_def num_def pending_def
      chunk_items_def published_nonempty_def LIFO_SB_push_def Let_def split: option.splits)

lemma Chunk_pop_items:
  "Chunk_pop c = (case chunk_items c of [] \<Rightarrow> (None, c)
                  | x # xs \<Rightarrow> (Some x, c\<lparr>data := rev xs\<rparr>))"
  by (cases "data c" rule: rev_cases) (simp_all add: Chunk_pop_def chunk_items_def num_def)

lemma pop_refill_pending:
  assumes "published_nonempty s" "case cur s tid of None \<Rightarrow> True | Some n \<Rightarrow> data n = []"
  shows "fst (pop_refill tid s) = (case pending tid s of [] \<Rightarrow> None | x # _ \<Rightarrow> Some x)
       \<and> pending tid (snd (pop_refill tid s)) = tl (pending tid s)
       \<and> published_nonempty (snd (pop_refill tid s))"
proof (cases "worklist s")
  case Nil
  with assms show ?thesis
    by (simp add: pop_refill_def LIFO_SB_pop_def LIFO_SB_empty_def pending_def
        published_nonempty_def chunk_items_def split: option.splits)
next
  case (Cons c wl)
  with assms(1) have ne: "chunk_items c \<noteq> []" and rest: "list_all (\<lambda>c. data c \<noteq> []) wl"
    by (simp_all add: published_nonempty_def chunk_items_def)
  then obtain x xs where c: "chunk_items c = x # xs" by (cases "chunk_items c") auto
  have front: "(case cur s tid of None \<Rightarrow> [] | Some n \<Rightarrow> chunk_items n) = []"
    using assms(2) by (simp add: chunk_items_def split: option.splits)
  show ?thesis using Cons c rest front
    by (simp add: pop_refill_def LIFO_SB_pop_def LIFO_SB_empty_def pending_def
        published_nonempty_def Chunk_pop_items chunk_items_def)
qed

lemma pop_pending:
  assumes "published_nonempty s"
  shows "fst (pop tid s) = (case pending tid s of [] \<Rightarrow> None | x # _ \<Rightarrow> Some x)
       \<and> pending tid (snd (pop tid s)) = tl (pending tid s)
       \<and> published_nonempty (snd (pop tid s))"
proof (cases "cur s tid")
  case None
  with pop_refill_pending [OF assms, of tid] show ?thesis by (simp add: pop_def)
next
  case (Some n)
  show ?thesis
  proof (cases "chunk_items n")
    case Nil
    then have "data n = []" by (simp add: chunk_items_def)
    with pop_refill_pending [OF assms, of tid] Some Nil show ?thesis
      by (simp add: pop_def Chunk_pop_items)
  next
    case (Cons x xs)
    with Some assms show ?thesis
      by (simp add: pop_def Chunk_pop_items pending_def published_nonempty_def chunk_items_def)
  qed
qed

lemma run_adaptor_refines:
  "0 < chunksize \<Longrightarrow> published_nonempty s \<Longrightarrow>
   run_adaptor chunksize tid s ops = run_stack (pending tid s) ops"
proof (induction ops arbitrary: s)
  case Nil
  show ?case by simp
next
  case (Cons a ops)
  show ?case
  proof (cases a)
    case (Push x)
    from push_pending [OF Cons.prems, of tid x] Cons.IH [OF Cons.prems(1), of "snd (push chunksize tid s x)"]
    show ?thesis using Push by (simp add: split_beta)
  next
    case Pop
    from pop_pending [OF Cons.prems(2), of tid] Cons.IH [OF Cons.prems(1), of "snd (pop tid s)"]
    show ?thesis using Pop by (cases "pending tid s") (simp_all add: split_beta)
  qed
qed

text \<open>
  Claim C3. One worker (any fixed id \<open>tid\<close>) runs an arbitrary sequence of
  \<^verbatim>\<open>push\<close> and \<^verbatim>\<open>pop\<close> calls on a freshly constructed ChunkedAdaptor
  over LIFO\_SB whose chunk size is positive. Every call observes exactly what the same
  call observes on a single stack: each push reports success, each pop returns the most
  recently pushed item that has not been popped yet, and a pop fails exactly when the
  stack is empty.
\<close>

theorem single_worker_lifo:
  "0 < chunksize \<Longrightarrow>
   run_adaptor chunksize tid ChunkedAdaptor_new ops = run_stack [] ops"
proof -
  assume "0 < chunksize"
  moreover have "published_nonempty (ChunkedAdaptor_new :: 'a ChunkedAdaptor)"
    by (simp add: published_nonempty_def ChunkedAdaptor_new_def)
  moreover have "pending tid (ChunkedAdaptor_new :: 'a ChunkedAdaptor) = []"
    by (simp add: pending_def ChunkedAdaptor_new_def)
  ultimately show ?thesis
    using run_adaptor_refines [of chunksize ChunkedAdaptor_new tid ops] by simp
qed

theorem single_worker_lifo_witness:
  "0 < (2::nat) \<and>
   run_adaptor 2 0 ChunkedAdaptor_new
     [Push (1::nat), Push 2, Push 3, Pop, Push 4, Push 5, Pop, Pop, Pop, Pop, Pop]
   = [Pushed True, Pushed True, Pushed True, Popped (Some 3), Pushed True, Pushed True,
      Popped (Some 5), Popped (Some 4), Popped (Some 2), Popped (Some 1), Popped None]"
  using single_worker_lifo [of 2 0
      "[Push (1::nat), Push 2, Push 3, Pop, Push 4, Push 5, Pop, Pop, Pop, Pop, Pop]"]
  by simp

text \<open>
  Claim C10. With a positive chunk size, \<^verbatim>\<open>push(val)\<close> returns true in every
  state of the adaptor. If the worker's current chunk exists and has room, the value is
  appended to it and nothing else changes. If the current chunk is full, it is
  published on the worklist and a fresh chunk holding just the value becomes current.
  If there is no current chunk, a fresh chunk holding just the value becomes current.
\<close>

theorem push_total:
  assumes "0 < chunksize"
  shows "fst (push chunksize tid s val) = True \<and>
         snd (push chunksize tid s val) =
           (case cur s tid of
              None \<Rightarrow> s\<lparr>cur := (cur s)(tid := Some \<lparr>data = [val]\<rparr>)\<rparr>
            | Some n \<Rightarrow>
                if num n < chunksize
                then s\<lparr>cur := (cur s)(tid := Some (n\<lparr>data := data n @ [val]\<rparr>))\<rparr>
                else s\<lparr>cur := (cur s)(tid := Some \<lparr>data = [val]\<rparr>),
                       worklist := n # worklist s\<rparr>)"
  using assms
  by (simp add: push_def push_fresh_def Chunk_push_def Chunk_new_def num_def
      LIFO_SB_push_def split: option.splits)

theorem push_total_witness:
  "0 < (2::nat) \<and>
   fst (push 2 0 \<lparr>cur = (\<lambda>i. Some \<lparr>data = [1, 2::nat]\<rparr>), worklist = []\<rparr> 5) = True \<and>
   cur (snd (push 2 0 \<lparr>cur = (\<lambda>i. Some \<lparr>data = [1, 2::nat]\<rparr>), worklist = []\<rparr> 5)) 0
     = Some \<lparr>data = [5]\<rparr> \<and>
   worklist (snd (push 2 0 \<lparr>cur = (\<lambda>i. Some \<lparr>data = [1, 2::nat]\<rparr>), worklist = []\<rparr> 5))
     = [\<lparr>data = [1, 2]\<rparr>]"
  using push_total [of 2 0 "\<lparr>cur = (\<lambda>i. Some \<lparr>data = [1, 2::nat]\<rparr>), worklist = []\<rparr>" 5]
  by (simp add: num_def)

text \<open>The range form of \<^verbatim>\<open>pushi\<close> never touches a current chunk: on the
  one-element range it publishes a fresh chunk through \<^verbatim>\<open>worklist.pushi\<close>.\<close>

lemma pushi_range_cur:
  "pushi_range chunksize tid s bs = Some s' \<Longrightarrow> cur s' = cur s"
  by (auto simp: pushi_range_def)

lemma pushi_range_single:
  "pushi_range 64 0 ChunkedAdaptor_new [7::int]
   = Some \<lparr>cur = (\<lambda>i. None), worklist = [\<lparr>data = [7]\<rparr>]\<rparr>"
  by (simp add: pushi_range_def ChunkedAdaptor_new_def Chunk_new_def num_def
      LIFO_SB_pushi_def LIFO_SB_push_def)

text \<open>
  Claim C9, evaluated on the source. The single-value \<^verbatim>\<open>pushi(val)\<close> is
  \<^verbatim>\<open>return push(val)\<close>: called by worker 0 on a fresh adaptor (chunk size 64)
  with the value 7, it makes a chunk holding 7 the worker's current chunk and leaves the
  underlying worklist empty. Nothing reaches \<^verbatim>\<open>worklist.pushi\<close>, and the
  current chunk changes.
\<close>

theorem pushi_single_uses_current_chunk:
  "pushi 64 0 ChunkedAdaptor_new (7::int) = push 64 0 ChunkedAdaptor_new 7 \<and>
   cur (snd (pushi 64 0 ChunkedAdaptor_new (7::int))) 0 = Some \<lparr>data = [7]\<rparr> \<and>
   cur ChunkedAdaptor_new 0 = (None :: int Chunk option) \<and>
   worklist (snd (pushi 64 0 ChunkedAdaptor_new (7::int))) = []"
  by (simp add: pushi_def push_def push_fresh_def ChunkedAdaptor_new_def Chunk_new_def
      Chunk_push_def num_def)

section \<open>Louvain theorems\<close>

subsection \<open>Loops\<close>

lemma do_all_append:
  "do_all body (xs @ ys) s = (case do_all body xs s of None \<Rightarrow> None | Some s' \<Rightarrow> do_all body ys s')"
  by (induction xs arbitrary: s) (auto split: option.splits)

lemma do_all_upt:
  assumes "P 0 s0"
    and step: "\<And>k s. k < N \<Longrightarrow> P k s \<Longrightarrow> \<exists>s'. body s k = Some s' \<and> P (Suc k) s'"
  shows "\<exists>s'. do_all body [0..<N] s0 = Some s' \<and> P N s'"
  using step
proof (induction N)
  case 0
  with assms(1) show ?case by simp
next
  case (Suc N)
  have "\<exists>s'. do_all body [0..<N] s0 = Some s' \<and> P N s'"
    using Suc.prems by (intro Suc.IH) auto
  then obtain s1 where s1: "do_all body [0..<N] s0 = Some s1" "P N s1" by blast
  from Suc.prems [of N s1] s1(2) obtain s' where "body s1 N = Some s'" "P (Suc N) s'" by auto
  with s1(1) show ?case by (simp add: do_all_append)
qed

subsection \<open>Facts about double\<close>

lemma dyadic_big:
  assumes "i < 2 ^ 53" "2 ^ 52 \<le> (of_int i / 2 ^ j :: real)"
  shows "j = 0"
proof (rule ccontr)
  assume j: "j \<noteq> 0"
  from assms(1) have small: "(of_int i :: real) < 2 ^ 53"
    by (metis of_int_less_numeral_power_cancel_iff)
  from j have "(2 :: real) ^ 1 \<le> 2 ^ j"
    by (intro power_increasing) auto
  then have "(2 :: real) ^ 52 * 2 ^ 1 \<le> 2 ^ 52 * 2 ^ j"
    by (intro mult_left_mono) auto
  moreover from assms(2) have "(2 :: real) ^ 52 * 2 ^ j \<le> of_int i"
    by (simp add: pos_le_divide_eq)
  ultimately show False using small by simp
qed

lemma scale_up_dyadic:
  "scale_up (of_int i / 2 ^ j) e q = (m, q') \<Longrightarrow> int j \<le> e + 1074 \<Longrightarrow> j = 0 \<or> i < 2 ^ 53
   \<Longrightarrow> (\<exists>k. m = of_int k) \<and> m * q' = of_int i / 2 ^ j * q"
proof (induction "of_int i / 2 ^ j :: real" e q arbitrary: i j rule: scale_up.induct)
  case (1 e q)
  show ?case
  proof (cases "2 ^ 52 \<le> (of_int i / 2 ^ j :: real) \<or> e \<le> - 1074")
    case True
    have "j = 0" using True 1(3,4) dyadic_big [of i j] by auto
    with 1(2) True show ?thesis by (subst (asm) scale_up.simps) auto
  next
    case False
    show ?thesis
    proof (cases j)
      case 0
      from 1(2) False 0 have "scale_up (of_int (2 * i) / 2 ^ 0) (e - 1) (q / 2) = (m, q')"
        by (subst (asm) scale_up.simps) simp
      from 1(1) [OF False _ this] False 0 show ?thesis by simp
    next
      case (Suc j')
      from 1(2) False Suc have "scale_up (of_int i / 2 ^ j') (e - 1) (q / 2) = (m, q')"
        by (subst (asm) scale_up.simps) simp
      from 1(1) [OF False _ this] False Suc 1(3,4) show ?thesis by simp
    qed
  qed
qed


lemma round_even_int: "round_even (of_int i) = i"
  by (simp add: round_even_def)

lemma round_pos_dyadic:
  assumes "0 < i" "i < 2 ^ 53" "j \<le> 1074"
  shows "round_pos (of_int i / 2 ^ j) = Finite (of_int i / 2 ^ j)"
proof -
  let ?x = "of_int i / 2 ^ j :: real"
  have i53: "(of_int i :: real) < 2 ^ 53"
    using assms(2) by (metis of_int_less_numeral_power_cancel_iff)
  have "?x \<le> of_int i / 1"
    using assms(1) by (intro divide_left_mono) auto
  with i53 have x53: "?x < 2 ^ 53" by simp
  have "(2 :: real) ^ 53 \<le> 2 ^ 1024" by (rule power_increasing) simp_all
  with x53 have small: "?x < 2 ^ 1024" by simp
  show ?thesis
  proof (cases "2 ^ 52 \<le> ?x")
    case True
    from x53 have sd: "scale_down ?x 0 1 = (?x, 1)" by (subst scale_down.simps) simp
    from dyadic_big [OF assms(2) True] have "?x = of_int i" by simp
    with True sd small show ?thesis by (simp add: round_pos_def round_even_int)
  next
    case False
    obtain m q' where sc: "scale_up ?x 0 1 = (m, q')" by (cases "scale_up ?x 0 1")
    from scale_up_dyadic [OF sc] assms(2,3) obtain k where m: "m = of_int k" and eq: "m * q' = ?x"
      by auto
    from False sc m eq small show ?thesis by (simp add: round_pos_def round_even_int)
  qed
qed


lemma round64_dyadic:
  assumes "\<bar>i\<bar> < 2 ^ 53" "j \<le> 1074"
  shows "round64 (of_int i / 2 ^ j) = Finite (of_int i / 2 ^ j)"
proof -
  consider "i = 0" | "0 < i" | "i < 0" by linarith
  then show ?thesis
  proof cases
    case 1 then show ?thesis by (simp add: round64_def)
  next
    case 2 with assms show ?thesis by (simp add: round64_def round_pos_dyadic)
  next
    case 3
    with assms have "0 < - i" "- i < 2 ^ 53" by auto
    moreover from 3 have "(of_int i / 2 ^ j :: real) < 0" by (simp add: divide_neg_pos)
    ultimately show ?thesis using round_pos_dyadic [of "- i" j] assms(2) by (simp add: round64_def)
  qed
qed

lemma round64_int:
  "\<bar>i\<bar> < 2 ^ 53 \<Longrightarrow> round64 (of_int i) = Finite (of_int i)"
  using round64_dyadic [of i 0] by simp

lemma double_of_u64_small:
  assumes "unat w < 2 ^ 53"
  shows "double_of_u64 w = Finite (real (unat w))"
proof -
  have "int (unat w) < int (2 ^ 53)" using assms by (simp only: of_nat_less_iff)
  then have "\<bar>int (unat w)\<bar> < 2 ^ 53" by simp
  from round64_int [OF this] show ?thesis by (simp add: double_of_u64_def)
qed

lemma round64_0 [simp]: "round64 0 = Finite 0"
  by (simp add: round64_def)

lemma round64_1 [simp]: "round64 1 = Finite 1"
  using round64_int [of 1] by simp

lemma canon_simps [simp]:
  "canon PosInf = PosInf" "canon NegInf = NegInf" "canon NaN = NaN" "canon (Finite 0) = Finite 0"
  "canon (Finite 1) = Finite 1"
  by (simp_all add: canon_def)

lemma double_of_u64_0 [simp]: "double_of_u64 0 = Finite 0"
  by (simp add: double_of_u64_def)

lemma dadd_NaN [simp]: "dadd NaN y = NaN" "dadd x NaN = NaN"
  by (simp_all add: dadd_def) (cases "canon x"; simp)

lemma dsub_NaN [simp]: "dsub NaN y = NaN" "dsub x NaN = NaN"
  by (simp_all add: dsub_def)

lemma dless_NaN [simp]: "\<not> dless NaN y" "\<not> dless x NaN"
  by (simp_all add: dless_def) (cases "canon x"; simp)

lemma round64_neg: "round64 (- x) = dneg (round64 x)"
proof -
  have pos: "\<And>y. round_pos y = PosInf \<or> (\<exists>r. round_pos y = Finite r)"
    by (simp add: round_pos_def Let_def split: prod.splits)
  consider "x = 0" | "0 < x" | "x < 0" by linarith
  then show ?thesis
  proof cases
    case 1 then show ?thesis by (simp add: round64_def)
  next
    case 2 with pos [of x] show ?thesis by (auto simp: round64_def)
  next
    case 3 with pos [of "- x"] show ?thesis by (auto simp: round64_def)
  qed
qed

lemma round64_numeral:
  "(numeral k :: int) < 2 ^ 53 \<Longrightarrow> round64 (numeral k) = Finite (numeral k)"
  using round64_int [of "numeral k"] by simp

lemma round64_fractions:
  assumes "(numeral k :: int) < 2 ^ 53"
  shows "round64 (numeral k / 2) = Finite (numeral k / 2)"
    and "round64 (numeral k / 4) = Finite (numeral k / 4)"
    and "round64 (numeral k / 8) = Finite (numeral k / 8)"
    and "round64 (numeral k / 16) = Finite (numeral k / 16)"
    and "round64 (numeral k / 32) = Finite (numeral k / 32)"
    and "round64 (numeral k / 64) = Finite (numeral k / 64)"
    and "round64 (numeral k / 128) = Finite (numeral k / 128)"
    and "round64 (numeral k / 256) = Finite (numeral k / 256)"
    and "round64 (numeral k / 512) = Finite (numeral k / 512)"
  using assms round64_dyadic [of "numeral k" 1] round64_dyadic [of "numeral k" 2]
    round64_dyadic [of "numeral k" 3] round64_dyadic [of "numeral k" 4]
    round64_dyadic [of "numeral k" 5] round64_dyadic [of "numeral k" 6]
    round64_dyadic [of "numeral k" 7] round64_dyadic [of "numeral k" 8]
    round64_dyadic [of "numeral k" 9]
  by simp_all

lemma round64_unit_fractions:
  "round64 (1 / 2) = Finite (1 / 2)" "round64 (1 / 4) = Finite (1 / 4)"
  "round64 (1 / 8) = Finite (1 / 8)" "round64 (1 / 16) = Finite (1 / 16)"
  "round64 (1 / 32) = Finite (1 / 32)" "round64 (1 / 64) = Finite (1 / 64)"
  "round64 (1 / 128) = Finite (1 / 128)" "round64 (1 / 256) = Finite (1 / 256)"
  "round64 (1 / 512) = Finite (1 / 512)"
  using round64_dyadic [of 1 1] round64_dyadic [of 1 2] round64_dyadic [of 1 3]
    round64_dyadic [of 1 4] round64_dyadic [of 1 5] round64_dyadic [of 1 6]
    round64_dyadic [of 1 7] round64_dyadic [of 1 8] round64_dyadic [of 1 9]
  by simp_all

lemma round64_tenth: "round64 (1 / 10) = Finite (3602879701896397 / 36028797018963968)"
  by (simp add: round64_def round_pos_def round_even_def scale_up.simps)

lemmas double_defs = canon_def double_of_u64_def dmul_def dadd_def dsub_def ddiv_def dless_def
  dgreater_def deq_def round64_neg round64_numeral round64_fractions round64_unit_fractions

lemmas graph_defs = iterate_def graph_size_def getData_def edge_begin_def edge_end_def
  getEdgeDst_def getEdgeData_def edge_distance_def edges_def set_node_def elem_at_def upd_at_def

lemmas louvain_defs = louvain_init_def init_comm_ass_def sumVertexDegreeWeight_def
  sumVertexDegreeWeight_body_def calConstantForSecondTerm_def louvain_iteration_def
  louvain_body_def scan_edge_def map_find_def maxModularity_def maxModularity_step_def gain_def
  migrate_def modularity_sums_def cluster_wt_internal_of_def curr_modularity_def

subsection \<open>Migration\<close>

lemma sum_list_map_update:
  fixes f :: "'a \<Rightarrow> 'b::ab_group_add"
  shows "i < length xs \<Longrightarrow>
         sum_list (map f (xs[i := y])) = sum_list (map f xs) - f (xs ! i) + f y"
  by (induction xs arbitrary: i) (auto split: nat.splits)

text \<open>
  Claim C4. A migration (the four atomic updates, reached when the chosen target differs
  from the vertex's current community and from \<open>-1\<close>; both communities are entries of
  the table) adds the vertex's \<open>degree_wt\<close> and 1 to the target's record, subtracts the
  same from the record of the current community and leaves every other record alone.
  The sum of \<open>degree_wt\<close> over the table, and the sum of \<open>size\<close>, are the same before and
  after; the sums are those of the 64-bit fields, modulo \<open>2 ^ 64\<close>.
\<close>

theorem migrate_conserves:
  assumes "local_target \<noteq> curr_comm_ass n_data" "local_target \<noteq> - 1"
      and "unat local_target < length c_info" "unat (curr_comm_ass n_data) < length c_info"
  shows "\<exists>c_info'. migrate c_info local_target n_data = Some c_info'
       \<and> length c_info' = length c_info
       \<and> c_info' ! unat local_target =
            \<lparr>size_c = size_c (c_info ! unat local_target) + 1,
             degree_wt_c = degree_wt_c (c_info ! unat local_target) + degree_wt n_data\<rparr>
       \<and> c_info' ! unat (curr_comm_ass n_data) =
            \<lparr>size_c = size_c (c_info ! unat (curr_comm_ass n_data)) - 1,
             degree_wt_c = degree_wt_c (c_info ! unat (curr_comm_ass n_data)) - degree_wt n_data\<rparr>
       \<and> (\<forall>i. i \<noteq> unat local_target \<and> i \<noteq> unat (curr_comm_ass n_data)
              \<longrightarrow> c_info' ! i = c_info ! i)
       \<and> sum_list (map degree_wt_c c_info') = sum_list (map degree_wt_c c_info)
       \<and> sum_list (map size_c c_info') = sum_list (map size_c c_info)"
proof -
  have ne: "unat local_target \<noteq> unat (curr_comm_ass n_data)"
    using assms(1) by (simp add: word_unat_eq_iff)
  show ?thesis
    using assms(3,4) ne
    by (simp add: migrate_def upd_at_def sum_list_map_update)
qed

theorem migrate_conserves_witness:
  "(1 :: u64) \<noteq> curr_comm_ass (node0\<lparr>degree_wt := 3\<rparr>) \<and> (1 :: u64) \<noteq> - 1
   \<and> unat (1 :: u64) < length [\<lparr>size_c = 1, degree_wt_c = 3\<rparr>, \<lparr>size_c = 1, degree_wt_c = 5\<rparr>]
   \<and> migrate [\<lparr>size_c = 1, degree_wt_c = 3\<rparr>, \<lparr>size_c = 1, degree_wt_c = 5\<rparr>] 1
        (node0\<lparr>degree_wt := 3\<rparr>)
      = Some [\<lparr>size_c = 0, degree_wt_c = 0\<rparr>, \<lparr>size_c = 2, degree_wt_c = 8\<rparr>]
   \<and> sum_list (map degree_wt_c [\<lparr>size_c = 0, degree_wt_c = 0\<rparr>, \<lparr>size_c = 2, degree_wt_c = 8\<rparr>])
      = sum_list (map degree_wt_c [\<lparr>size_c = 1, degree_wt_c = 3\<rparr>, \<lparr>size_c = 1, degree_wt_c = 5\<rparr>])"
  using migrate_conserves [of 1 "node0\<lparr>degree_wt := 3\<rparr>"
      "[\<lparr>size_c = 1, degree_wt_c = 3\<rparr>, \<lparr>size_c = 1, degree_wt_c = 5\<rparr>]"]
  by (simp add: node0_def migrate_def upd_at_def)

subsection \<open>vertexFollowing\<close>

lemmas vf_defs = vertexFollowing_def init_curr_comm_def iterate_def graph_size_def set_node_def
  upd_at_def vertexFollowing_body_def edge_distance_def edge_begin_def edge_end_def elem_at_def
  getEdgeDst_def getData_def

text \<open>
  Claim C5, evaluated on the source. In \<open>pendant_graph\<close> vertex 0 has degree 1, its only
  edge leads to vertex 1, and vertex 1 has degree 3. The claim makes vertex 0 follow:
  \<open>clusters[0] = curr_comm(1) = 1\<close> and a count of 1. The source reads the destination
  through \<^verbatim>\<open>graph.getEdgeDst(graph.edge_end(n))\<close>, the edge one past the range of
  \<open>n\<close>: for vertex 0 that is the first edge of vertex 1, which leads back to 0. So the
  destination it tests is 0 itself, of degree 1 and not smaller than 0, and nothing is
  followed: the array is returned as it was and the count is 0.
\<close>

theorem vertexFollowing_reads_past_range:
  "edges pendant_graph 0 = Some [0] \<and> getEdgeDst pendant_graph 0 = Some 1
   \<and> edge_distance pendant_graph 0 = Some 1 \<and> edge_distance pendant_graph 1 = Some 3
   \<and> edge_end pendant_graph 0 = Some 1 \<and> getEdgeDst pendant_graph 1 = Some 0
   \<and> vertexFollowing pendant_graph [7, 7, 7, 7] =
       Some (0, [7, 7, 7, 7],
             pendant_graph\<lparr>nodeData := [node0, node0\<lparr>curr_comm_ass := 1\<rparr>,
                node0\<lparr>curr_comm_ass := 2\<rparr>, node0\<lparr>curr_comm_ass := 3\<rparr>]\<rparr>)"
  by (simp add: vf_defs edges_def pendant_graph_def node0_def)

text \<open>
  Claim C6 as amended. On the path \<open>0 \<midarrow> 1\<close> the pass of \<^verbatim>\<open>vertexFollowing\<close> over
  vertex 0 changes neither \<^verbatim>\<open>clusters\<close> nor the count, whatever they hold: vertex 0
  is not collapsed into vertex 1.
\<close>

theorem path_vertex0_not_followed:
  "(init_curr_comm path_graph \<bind> (\<lambda>g. vertexFollowing_body g (clusters, isolatedNodes) 0))
   = Some (clusters, isolatedNodes)"
  by (simp add: vf_defs path_graph_def node0_def)

text \<open>
  Claim C6 as stated fails: started on an array holding 7 in both slots, the run does not
  end with \<open>clusters[0] = 1\<close> and a count of 1, and the pass over vertex 0 leaves the 7
  in slot 0.
\<close>

theorem path_follow_counterexample:
  "map_option (\<lambda>r. (fst r, fst (snd r) ! 0)) (vertexFollowing path_graph [7, 7]) \<noteq> Some (1, 1)
   \<and> (init_curr_comm path_graph \<bind> (\<lambda>g. vertexFollowing_body g ([7, 7], 0) 0)) = Some ([7, 7], 0)"
  by (simp add: vf_defs path_graph_def node0_def)

subsection \<open>The edgeless graph\<close>

lemma edgeless_body:
  assumes "edgeIndData g = [0, 0]" "length (nodeData g) = 2" "n < 2"
  shows "louvain_body c (g, ci) n
         = Some (g\<lparr>nodeData := (nodeData g)[n := (nodeData g ! n)\<lparr>curr_comm_ass := - 1\<rparr>]\<rparr>, ci)"
proof -
  from assms(3) have "n = 0 \<or> n = 1" by auto
  then show ?thesis using assms(1,2)
    by (auto simp: louvain_body_def getData_def elem_at_def edge_distance_def edge_begin_def
        edge_end_def set_node_def upd_at_def)
qed

lemma edgeless_iteration:
  assumes "set order \<subseteq> {0, 1}" "edgeIndData g = [0, 0]" "length (nodeData g) = 2"
  shows "\<exists>g'. louvain_iteration c order (g, ci) = Some (g', ci)
            \<and> edgeIndData g' = [0, 0] \<and> length (nodeData g') = 2"
  using assms
proof (induction order arbitrary: g)
  case Nil
  then show ?case by (simp add: louvain_iteration_def)
next
  case (Cons n ns)
  then have n: "n < 2" by auto
  let ?g = "g\<lparr>nodeData := (nodeData g)[n := (nodeData g ! n)\<lparr>curr_comm_ass := - 1\<rparr>]\<rparr>"
  have "\<exists>g'. louvain_iteration c ns (?g, ci) = Some (g', ci)
            \<and> edgeIndData g' = [0, 0] \<and> length (nodeData g') = 2"
    using Cons.prems by (intro Cons.IH) auto
  then show ?case
    using edgeless_body [OF Cons.prems(2,3) n, of c ci]
    by (simp add: louvain_iteration_def)
qed

lemma edgeless_cluster_wt:
  assumes "edgeIndData g = [0, 0]" "length (nodeData g) = 2" "n < 2"
  shows "cluster_wt_internal_of g n = Some 0"
proof -
  from assms(3) have "n = 0 \<or> n = 1" by auto
  then show ?thesis using assms(1,2)
    by (auto simp: cluster_wt_internal_of_def getData_def elem_at_def edges_def edge_begin_def
        edge_end_def)
qed

lemma edgeless_sums:
  assumes "edgeIndData g = [0, 0]" "length (nodeData g) = 2" "length ci = 2"
  shows "\<exists>a. modularity_sums g ci = Some (Finite 0, a)"
proof -
  have it: "iterate g = [0, 1]"
    using assms(2) by (simp add: iterate_def graph_size_def numeral_2_eq_2)
  show ?thesis
    using assms(3) edgeless_cluster_wt [OF assms(1,2), of 0]
      edgeless_cluster_wt [OF assms(1,2), of 1]
    by (simp add: modularity_sums_def it elem_at_def dadd_def)
qed

lemma edgeless_sums_zero:
  assumes "edgeIndData g = [0, 0]" "length (nodeData g) = 2"
  shows "modularity_sums g [\<lparr>size_c = 1, degree_wt_c = 0\<rparr>, \<lparr>size_c = 1, degree_wt_c = 0\<rparr>]
         = Some (Finite 0, Finite 0)"
proof -
  have it: "iterate g = [0, 1]"
    using assms(2) by (simp add: iterate_def graph_size_def numeral_2_eq_2)
  show ?thesis
    using edgeless_cluster_wt [OF assms(1,2), of 0] edgeless_cluster_wt [OF assms(1,2), of 1]
    by (simp add: modularity_sums_def it elem_at_def dadd_def)
qed

lemma edgeless_modularity: "curr_modularity PosInf (Finite 0) a2_x = NaN"
  by (simp add: curr_modularity_def dmul_def)

lemma edgeless_loop:
  assumes run: "louvain_loop sched c thr st pm ni = Some y"
  shows "\<not> (c = PosInf \<and> (\<forall>k. set (sched k) \<subseteq> {0, 1}) \<and> edgeIndData (fst st) = [0, 0]
            \<and> length (nodeData (fst st)) = 2 \<and> length (snd st) = 2)"
proof (rule louvain_loop.raw_induct
    [where P = "\<lambda>sched c thr st pm ni y.
       \<not> (c = PosInf \<and> (\<forall>k. set (sched k) \<subseteq> {0, 1}) \<and> edgeIndData (fst st) = [0, 0]
            \<and> length (nodeData (fst st)) = 2 \<and> length (snd st) = 2)", OF _ run])
  fix loop :: "(nat \<Rightarrow> nat list) \<Rightarrow> double \<Rightarrow> double \<Rightarrow> Graph \<times> Comm list \<Rightarrow> double \<Rightarrow> nat
               \<Rightarrow> (double \<times> nat) option option"
    and sched c thr st pm ni y
  assume IH: "\<And>sched c thr st pm ni y. loop sched c thr st pm ni = Some y \<Longrightarrow>
       \<not> (c = PosInf \<and> (\<forall>k. set (sched k) \<subseteq> {0, 1}) \<and> edgeIndData (fst st) = [0, 0]
            \<and> length (nodeData (fst st)) = 2 \<and> length (snd st) = 2)"
  assume step: "(case louvain_iteration c (sched ni) st of
      None \<Rightarrow> Some None
      | Some (graph', c_info') \<Rightarrow>
          case modularity_sums graph' c_info' of None \<Rightarrow> Some None
          | Some (e_xx, a2_x) \<Rightarrow>
              let curr_mod = curr_modularity c e_xx a2_x
              in if dless (dsub curr_mod pm) thr
                 then Some (Some (pm, ni + 1))
                 else loop sched c thr (graph', c_info') curr_mod (ni + 1)) = Some y"
  show "\<not> (c = PosInf \<and> (\<forall>k. set (sched k) \<subseteq> {0, 1}) \<and> edgeIndData (fst st) = [0, 0]
            \<and> length (nodeData (fst st)) = 2 \<and> length (snd st) = 2)"
  proof
    assume J: "c = PosInf \<and> (\<forall>k. set (sched k) \<subseteq> {0, 1}) \<and> edgeIndData (fst st) = [0, 0]
            \<and> length (nodeData (fst st)) = 2 \<and> length (snd st) = 2"
    obtain g ci where st: "st = (g, ci)" by (cases st)
    from J st obtain g' where it: "louvain_iteration c (sched ni) (g, ci) = Some (g', ci)"
        and g': "edgeIndData g' = [0, 0]" "length (nodeData g') = 2"
      using edgeless_iteration [of "sched ni" g c ci] by auto
    from J st have ci: "length ci = 2" by simp
    from edgeless_sums [OF g' ci] obtain a where
      sums: "modularity_sums g' ci = Some (Finite 0, a)" by auto
    have "loop sched c thr (g', ci) NaN (ni + 1) = Some y"
      using step J st it sums by (simp add: edgeless_modularity)
    from IH [OF this] J g' ci show False by simp
  qed
qed

lemma edgeless_init:
  "louvain_init two_isolated
   = Some (two_isolated\<lparr>nodeData := [node0, node0\<lparr>curr_comm_ass := 1, prev_comm_ass := 1\<rparr>]\<rparr>,
           [\<lparr>size_c = 1, degree_wt_c = 0\<rparr>, \<lparr>size_c = 1, degree_wt_c = 0\<rparr>])"
  by (simp add: louvain_init_def init_comm_ass_def sumVertexDegreeWeight_def
      sumVertexDegreeWeight_body_def iterate_def graph_size_def set_node_def upd_at_def
      edges_def edge_begin_def edge_end_def elem_at_def two_isolated_def node0_def)

lemma edgeless_constant:
  "calConstantForSecondTerm
     (two_isolated\<lparr>nodeData := [node0, node0\<lparr>curr_comm_ass := 1, prev_comm_ass := 1\<rparr>]\<rparr>) = PosInf"
  by (simp add: calConstantForSecondTerm_def two_isolated_def node0_def ddiv_def)

text \<open>
  Claim C7, evaluated on the source. On two vertices without an edge
  \<^verbatim>\<open>vertexFollowing\<close> does set both slots of \<^verbatim>\<open>clusters\<close> to \<open>-1\<close> (and
  returns 2). In \<^verbatim>\<open>algoLouvainWithLocking\<close> the total edge weight is 0, so
  \<^verbatim>\<open>1/(double)total_edge_weight_twice\<close> is \<open>+\<infinity>\<close>; the sums \<^verbatim>\<open>e_xx\<close> and
  \<^verbatim>\<open>a2_x\<close> of the first round are 0, and \<open>0 \<cdot> \<infinity> - 0 \<cdot> \<infinity> \<cdot> \<infinity>\<close> is NaN. The test
  \<^verbatim>\<open>(curr_mod - prev_mod) < threshold_mod\<close> is false on NaN, in this round and in
  every later one: whatever the order of the bodies in each round, whatever \<open>lower\<close> and
  \<open>threshold\<close>, the loop never breaks and the function does not return.
\<close>

theorem edgeless_never_converges:
  assumes "\<And>k. set (sched k) \<subseteq> {0, 1}"
  shows "vertexFollowing two_isolated [c0, c1] =
           Some (2, [- 1, - 1], two_isolated\<lparr>nodeData := [node0, node0\<lparr>curr_comm_ass := 1\<rparr>]\<rparr>)
       \<and> (\<exists>g c_info a2_x.
             louvain_init two_isolated = Some (g, c_info)
           \<and> calConstantForSecondTerm g = PosInf
           \<and> (\<exists>g'. louvain_iteration PosInf (sched 0) (g, c_info) = Some (g', c_info)
                  \<and> modularity_sums g' c_info = Some (Finite 0, Finite a2_x))
           \<and> curr_modularity PosInf (Finite 0) (Finite a2_x) = NaN)
       \<and> algoLouvainWithLocking sched two_isolated clusters lower threshold = None"
proof -
  let ?g = "two_isolated\<lparr>nodeData := [node0, node0\<lparr>curr_comm_ass := 1, prev_comm_ass := 1\<rparr>]\<rparr>"
  let ?ci = "[\<lparr>size_c = 1, degree_wt_c = 0\<rparr>, \<lparr>size_c = 1, degree_wt_c = 0\<rparr>]"
  have vf: "vertexFollowing two_isolated [c0, c1] =
           Some (2, [- 1, - 1], two_isolated\<lparr>nodeData := [node0, node0\<lparr>curr_comm_ass := 1\<rparr>]\<rparr>)"
    by (simp add: vf_defs two_isolated_def node0_def)
  have shape: "edgeIndData ?g = [0, 0]" "length (nodeData ?g) = 2" "length ?ci = 2"
    by (simp_all add: two_isolated_def)
  from edgeless_iteration [OF assms [of 0] shape(1,2), of PosInf ?ci]
  obtain g' where it: "louvain_iteration PosInf (sched 0) (?g, ?ci) = Some (g', ?ci)"
    and g': "edgeIndData g' = [0, 0]" "length (nodeData g') = 2" by auto
  note sums = edgeless_sums_zero [OF g']
  have first: "\<exists>g c_info a2_x.
             louvain_init two_isolated = Some (g, c_info)
           \<and> calConstantForSecondTerm g = PosInf
           \<and> (\<exists>g'. louvain_iteration PosInf (sched 0) (g, c_info) = Some (g', c_info)
                  \<and> modularity_sums g' c_info = Some (Finite 0, Finite a2_x))
           \<and> curr_modularity PosInf (Finite 0) (Finite a2_x) = NaN"
    using edgeless_init edgeless_constant it sums edgeless_modularity by blast
  have never: "algoLouvainWithLocking sched two_isolated clusters lower threshold = None"
  proof (cases "algoLouvainWithLocking sched two_isolated clusters lower threshold")
    case None
    then show ?thesis .
  next
    case (Some y)
    then have "louvain_loop sched PosInf threshold (?g, ?ci) lower 0 = Some y"
      by (simp add: algoLouvainWithLocking_def edgeless_init edgeless_constant)
    from edgeless_loop [OF this] assms show ?thesis
      by (simp add: two_isolated_def)
  qed
  from vf first never show ?thesis by blast
qed

theorem edgeless_never_converges_witness:
  "set [0, 1] \<subseteq> {0, 1 :: nat}
   \<and> algoLouvainWithLocking (\<lambda>k. [0, 1]) two_isolated [INF_VAL, INF_VAL] (Finite (- 1))
        (Finite (1 / 100)) = None"
  using edgeless_never_converges [of "\<lambda>k. [0, 1]" 0 0 "[INF_VAL, INF_VAL]" "Finite (- 1)"
      "Finite (1 / 100)"]
  by simp

subsection \<open>The driver\<close>

lemma map_prefix_step:
  assumes "k < length xs"
  shows "(map f (take k xs) @ drop k xs)[k := f ((map f (take k xs) @ drop k xs) ! k)]
         = map f (take (Suc k) xs) @ drop (Suc k) xs"
proof -
  from assms have d: "drop k xs = xs ! k # drop (Suc k) xs" by (simp add: Cons_nth_drop_Suc)
  from assms have l: "length (map f (take k xs)) = k" by simp
  show ?thesis
    using assms by (simp add: d nth_append list_update_append take_Suc_conv_app_nth)
qed

lemma do_all_set_node_map:
  "do_all (\<lambda>g n. set_node g n f) (iterate g0) g0 = Some (g0\<lparr>nodeData := map f (nodeData g0)\<rparr>)"
proof -
  let ?N = "graph_size g0"
  let ?P = "\<lambda>k g. g = g0\<lparr>nodeData := map f (take k (nodeData g0)) @ drop k (nodeData g0)\<rparr>"
  have "\<exists>g. do_all (\<lambda>g n. set_node g n f) [0..<?N] g0 = Some g \<and> ?P ?N g"
  proof (rule do_all_upt [where P = ?P])
    show "?P 0 g0" by simp
  next
    fix k g assume k: "k < ?N" and P: "?P k g"
    from k have kl: "k < length (nodeData g0)" by (simp add: graph_size_def)
    from P kl map_prefix_step [OF kl, of f]
    show "\<exists>s'. set_node g k f = Some s' \<and> ?P (Suc k) s'"
      by (simp add: set_node_def upd_at_def)
  qed
  then show ?thesis by (simp add: iterate_def graph_size_def)
qed

lemma word_of_nat_gt:
  "n < 2 ^ 64 \<Longrightarrow> ((word_of_nat n :: u64) > m) = (unat m < n)"
  by (simp add: word_less_nat_alt unat_of_nat)

lemma while_true_once:
  "while_true body s =
     (case body s of None \<Rightarrow> None | Some None \<Rightarrow> Some None
      | Some (Some (b, s')) \<Rightarrow> if b then Some (Some s') else while_true body s')"
  by (subst while_true.simps) (rule refl)

lemma driver_one_phase:
  assumes "graph_size graph < 2 ^ 64"
  shows "runMultiPhaseLouvainAlgorithm sched graph clusters_orig min_graph_size c_threshold
         = one_phase sched graph min_graph_size c_threshold"
  using assms
  by (simp add: runMultiPhaseLouvainAlgorithm_def while_true_once multi_phase_body_def
      call_engine_def one_phase_def Let_def word_of_nat_gt split: option.splits)

lemma set_node_size: "set_node g n f = Some g' \<Longrightarrow> graph_size g' = graph_size g"
  by (auto simp: set_node_def upd_at_def graph_size_def split: if_splits)

lemma do_all_set_node_size:
  "do_all (\<lambda>g n. set_node g n (f n)) ns g = Some g' \<Longrightarrow> graph_size g' = graph_size g"
proof (induction ns arbitrary: g)
  case Nil
  then show ?case by simp
next
  case (Cons n ns)
  then show ?case
    by (cases "set_node g n (f n)") (auto dest: set_node_size)
qed

lemma vertexFollowing_size:
  "vertexFollowing g cl = Some r \<Longrightarrow> graph_size (snd (snd r)) = graph_size g"
  by (auto simp: vertexFollowing_def init_curr_comm_def Option.bind_eq_Some_conv
      dest: do_all_set_node_size)

lemma main_reset:
  "main sched uninit graph enable_VF c_threshold =
     (case (if enable_VF then map_option (\<lambda>r. snd (snd r)) (vertexFollowing graph uninit)
            else Some graph) of
        None \<Rightarrow> Some None
      | Some g \<Rightarrow> runMultiPhaseLouvainAlgorithm sched (reset_comm g)
                    (replicate (graph_size g) INF_VAL) 100 c_threshold)"
  by (simp add: main_def do_all_set_node_map reset_comm_def graph_size_def split: option.splits)

text \<open>
  Claim C8. The loop of \<^verbatim>\<open>runMultiPhaseLouvainAlgorithm\<close> runs its body once and
  leaves through the unconditional \<^verbatim>\<open>break\<close>: the run is \<open>one_phase\<close>, with exactly
  one call of the engine, on the graph it was given, when the number of vertices is
  greater than \<^verbatim>\<open>min_graph_size\<close>, and with no call otherwise; there is a single
  line \<^verbatim>\<open>Starting Phase\<close>, and no other graph is ever built or passed on.
  \<^verbatim>\<open>main\<close> passes 100 for \<^verbatim>\<open>min_graph_size\<close> and the graph whose communities it
  has reset: without vertex following it always reaches the driver, with vertex following
  it does unless \<^verbatim>\<open>vertexFollowing\<close> makes an access out of range.
\<close>

theorem driver_single_phase:
  assumes "graph_size graph < 2 ^ 64"
  shows "runMultiPhaseLouvainAlgorithm sched graph clusters_orig min_graph_size c_threshold
           = one_phase sched graph min_graph_size c_threshold
       \<and> main sched uninit graph False c_threshold = one_phase sched (reset_comm graph) 100 c_threshold
       \<and> main sched uninit graph True c_threshold
           = (case vertexFollowing graph uninit of
                None \<Rightarrow> Some None
              | Some (count, clusters, g) \<Rightarrow> one_phase sched (reset_comm g) 100 c_threshold)"
proof -
  have sz: "\<And>g. graph_size (reset_comm g) = graph_size g"
    by (simp add: reset_comm_def graph_size_def)
  have A: "main sched uninit graph False c_threshold = one_phase sched (reset_comm graph) 100 c_threshold"
    using assms by (simp add: main_reset driver_one_phase sz)
  have B: "main sched uninit graph True c_threshold
           = (case vertexFollowing graph uninit of
                None \<Rightarrow> Some None
              | Some (count, clusters, g) \<Rightarrow> one_phase sched (reset_comm g) 100 c_threshold)"
  proof (cases "vertexFollowing graph uninit")
    case None
    then show ?thesis by (simp add: main_reset)
  next
    case (Some r)
    from vertexFollowing_size [OF Some] assms have "graph_size (reset_comm (snd (snd r))) < 2 ^ 64"
      by (simp add: sz)
    from driver_one_phase [OF this] Some show ?thesis
      by (simp add: main_reset split: prod.splits)
  qed
  from driver_one_phase [OF assms] A B show ?thesis by blast
qed

lemma path_engine:
  "algoLouvainWithLocking (\<lambda>k. [0, 1]) path_graph cl (Finite (- 1)) (Finite (1 / 128))
   = Some (Some (Finite 0, 2))"
  by (simp add: algoLouvainWithLocking_def graph_defs louvain_defs path_graph_def node0_def
      upt_rec double_defs louvain_loop.simps)

theorem driver_single_phase_witness:
  "graph_size path_graph < 2 ^ 64
   \<and> runMultiPhaseLouvainAlgorithm (\<lambda>k. [0, 1]) path_graph [] 1 (Finite (1 / 128))
       = Some (Some \<lparr>prev_mod = Finite (- 1), curr_mod = Finite 0, phase = 1,
                      clusters_local = [INF_VAL, INF_VAL],
                      trace = [StartingPhase 1,
                               EngineCall path_graph [INF_VAL, INF_VAL] (Finite (- 1))
                                 (Finite (1 / 128))]\<rparr>)
   \<and> main (\<lambda>k. [0, 1]) [] path_graph False (Finite (1 / 128))
       = Some (Some \<lparr>prev_mod = Finite (- 1), curr_mod = Finite (- 1), phase = 1,
                      clusters_local = [INF_VAL, INF_VAL], trace = [StartingPhase 1]\<rparr>)"
proof -
  have sz: "graph_size path_graph = 2"
    by (simp add: graph_size_def path_graph_def)
  have sz': "graph_size (reset_comm path_graph) = 2"
    by (simp add: graph_size_def path_graph_def reset_comm_def)
  have h: "graph_size path_graph < 2 ^ 64"
    by (simp add: sz)
  have r: "replicate 2 INF_VAL = [INF_VAL, INF_VAL]"
    by (simp add: numeral_2_eq_2)
  show ?thesis
    using h driver_single_phase [OF h, of "\<lambda>k. [0, 1]" "[]" 1 "Finite (1 / 128)" "[]"]
    by (simp add: one_phase_def sz sz' r path_engine [simplified] Let_def)
qed

subsection \<open>maxModularity\<close>

lemma less64_trans: "less64 a b \<Longrightarrow> less64 b c \<Longrightarrow> less64 a c"
  by (cases a; cases b; cases c) auto

lemma less64_irrefl: "\<not> less64 a a"
  by (cases a) auto

lemma dless_trans: "dless a b \<Longrightarrow> dless b c \<Longrightarrow> dless a c"
  unfolding dless_def by (rule less64_trans)

lemma dless_irrefl: "\<not> dless a a"
  by (simp add: dless_def less64_irrefl)

lemma deq_canon: "deq a b \<Longrightarrow> canon a = canon b"
  by (simp add: deq_def)

lemma maxModularity_step_inv:
  assumes inv: "best_so_far G sc P st"
    and k: "unat k < length c_info" and i: "unat i < length counter"
    and G: "G k = gain constant deg_wt eix ax (double_of_u64 (counter ! unat i))
                   (double_of_u64 (degree_wt_c (c_info ! unat k)))"
  shows "\<exists>st'. maxModularity_step c_info counter deg_wt sc constant eix ax st (k, i) = Some st'
            \<and> best_so_far G sc (insert k P) st'"
proof -
  obtain mg mi where st: "st = (mg, mi)" by (cases st)
  show ?thesis
  proof (cases "sc = k")
    case True
    with inv st show ?thesis
      by (auto simp: maxModularity_step_def best_so_far_def)
  next
    case False
    let ?cg = "G k"
    have step: "maxModularity_step c_info counter deg_wt sc constant eix ax st (k, i)
        = Some (if dgreater ?cg mg \<or> (deq ?cg mg \<and> \<not> deq ?cg (Finite 0) \<and> k < mi)
                then (?cg, k) else (mg, mi))"
      using False k i st G by (simp add: maxModularity_step_def elem_at_def Let_def)
    have mg0: "mg = Finite 0 \<or> dless (Finite 0) mg"
      using inv st by (auto simp: best_so_far_def)
    show ?thesis
    proof (cases "dgreater ?cg mg")
      case True
      then have lt: "dless mg ?cg" by (simp add: dgreater_def)
      have pos: "dless (Finite 0) ?cg"
        using mg0 lt by (auto intro: dless_trans)
      have b: "\<forall>y\<in>insert k P. y \<noteq> sc \<longrightarrow> \<not> dless ?cg (G y)"
        using inv st lt by (auto simp: best_so_far_def dless_irrefl dest: dless_trans)
      have c: "\<forall>y\<in>insert k P. y \<noteq> sc \<and> k \<noteq> sc \<and> deq (G y) ?cg \<longrightarrow> k \<le> y"
      proof (intro ballI impI)
        fix y assume y: "y \<in> insert k P" and h: "y \<noteq> sc \<and> k \<noteq> sc \<and> deq (G y) ?cg"
        show "k \<le> y"
        proof (cases "y = k")
          case True then show ?thesis by simp
        next
          case False
          with y have "y \<in> P" by simp
          with inv st h have "\<not> dless mg (G y)" by (auto simp: best_so_far_def)
          moreover from h have "canon (G y) = canon ?cg" by (simp add: deq_canon)
          ultimately show ?thesis using lt by (simp add: dless_def)
        qed
      qed
      from True step pos b c False show ?thesis
        by (simp add: best_so_far_def)
    next
      case nogt: False
      then have nlt: "\<not> dless mg ?cg" by (simp add: dgreater_def)
      show ?thesis
      proof (cases "deq ?cg mg \<and> \<not> deq ?cg (Finite 0) \<and> k < mi")
        case True
        then have eq: "canon ?cg = canon mg" and lt: "k < mi"
          by (auto simp: deq_canon)
        from True have ne0: "mg \<noteq> Finite 0" by auto
        with mg0 eq have pos: "dless (Finite 0) ?cg" by (simp add: dless_def)
        from ne0 inv st have misc: "mi \<noteq> sc" by (auto simp: best_so_far_def)
        have b: "\<forall>y\<in>insert k P. y \<noteq> sc \<longrightarrow> \<not> dless ?cg (G y)"
          using inv st eq dless_irrefl [of ?cg] by (auto simp: best_so_far_def dless_def)
        have c: "\<forall>y\<in>insert k P. y \<noteq> sc \<and> k \<noteq> sc \<and> deq (G y) ?cg \<longrightarrow> k \<le> y"
        proof (intro ballI impI)
          fix y assume y: "y \<in> insert k P" and h: "y \<noteq> sc \<and> k \<noteq> sc \<and> deq (G y) ?cg"
          show "k \<le> y"
          proof (cases "y = k")
            case True then show ?thesis by simp
          next
            case False
            with y have "y \<in> P" by simp
            moreover from h eq have "deq (G y) mg" by (simp add: deq_def)
            ultimately have "mi \<le> y" using inv st h misc by (auto simp: best_so_far_def)
            with lt show ?thesis by simp
          qed
        qed
        from True step pos b c False show ?thesis
          by (simp add: best_so_far_def)
      next
        case notie: False
        have keep: "maxModularity_step c_info counter deg_wt sc constant eix ax st (k, i) = Some (mg, mi)"
          using step nogt notie by simp
        have a: "(mi = sc \<and> mg = Finite 0) \<or>
                 (mi \<in> insert k P \<and> mi \<noteq> sc \<and> mg = G mi \<and> dless (Finite 0) mg)"
          using inv st by (auto simp: best_so_far_def)
        have b: "\<forall>y\<in>insert k P. y \<noteq> sc \<longrightarrow> \<not> dless mg (G y)"
          using inv st nlt by (auto simp: best_so_far_def)
        have c: "\<forall>y\<in>insert k P. y \<noteq> sc \<and> mi \<noteq> sc \<and> deq (G y) mg \<longrightarrow> mi \<le> y"
        proof (intro ballI impI)
          fix y assume y: "y \<in> insert k P" and h: "y \<noteq> sc \<and> mi \<noteq> sc \<and> deq (G y) mg"
          show "mi \<le> y"
          proof (cases "y = k")
            case True
            with h have d: "deq ?cg mg" by simp
            from h inv st have "dless (Finite 0) mg" by (auto simp: best_so_far_def)
            with d dless_irrefl [of mg] have "\<not> deq ?cg (Finite 0)"
              by (auto simp: deq_def dless_def)
            with notie d have "\<not> k < mi" by simp
            with True show ?thesis by simp
          next
            case False
            with y have "y \<in> P" by simp
            with inv st h show ?thesis by (auto simp: best_so_far_def)
          qed
        qed
        from keep a b c show ?thesis by (simp add: best_so_far_def)
      qed
    qed
  qed
qed

lemma maxModularity_loop_inv:
  assumes "best_so_far G sc P st"
    and "\<forall>(k, i)\<in>set xs. unat k < length c_info \<and> unat i < length counter
           \<and> G k = gain constant deg_wt eix ax (double_of_u64 (counter ! unat i))
                      (double_of_u64 (degree_wt_c (c_info ! unat k)))"
  shows "\<exists>st'. do_all (maxModularity_step c_info counter deg_wt sc constant eix ax) xs st = Some st'
            \<and> best_so_far G sc (P \<union> fst ` set xs) st'"
  using assms
proof (induction xs arbitrary: P st)
  case Nil
  then show ?case by simp
next
  case (Cons x xs)
  obtain k i where x: "x = (k, i)" by (cases x)
  from Cons.prems(2) x have k: "unat k < length c_info" and i: "unat i < length counter"
    and G: "G k = gain constant deg_wt eix ax (double_of_u64 (counter ! unat i))
                   (double_of_u64 (degree_wt_c (c_info ! unat k)))"
    by auto
  from maxModularity_step_inv [OF Cons.prems(1) k i G]
  obtain st1 where s1: "maxModularity_step c_info counter deg_wt sc constant eix ax st (k, i) = Some st1"
    and i1: "best_so_far G sc (insert k P) st1" by auto
  from Cons.prems(2) have rest: "\<forall>(k, i)\<in>set xs. unat k < length c_info \<and> unat i < length counter
           \<and> G k = gain constant deg_wt eix ax (double_of_u64 (counter ! unat i))
                      (double_of_u64 (degree_wt_c (c_info ! unat k)))"
    by auto
  from Cons.IH [OF i1 rest] obtain st' where
    "do_all (maxModularity_step c_info counter deg_wt sc constant eix ax) xs st1 = Some st'"
    "best_so_far G sc (insert k P \<union> fst ` set xs) st'" by auto
  with s1 x show ?case by simp
qed

text \<open>
  Claim C1 as amended. On a call whose map is not empty and has distinct keys, whose
  keys are indices of \<^verbatim>\<open>c_info\<close> and whose values are indices of
  \<^verbatim>\<open>counter\<close>, \<^verbatim>\<open>maxModularity\<close> returns. The gain of a key is \<open>delta\<close>, the
  binary64 value of the expression \<open>\<Delta>(y)\<close>, and gains are compared as binary64 numbers.
  The candidate \<open>chosen\<close> the function has after the loop is \<open>sc\<close> when no key other than
  \<open>sc\<close> has a gain greater than 0 (a key whose gain equals 0 never replaces \<open>sc\<close>,
  whatever its id). Otherwise \<open>chosen\<close> is a key with a gain greater than 0 that no other
  key exceeds, and it is the least id among the keys with that gain. The result is \<open>sc\<close>
  if \<open>chosen\<close> and \<open>sc\<close> both have size 1 and \<open>chosen > sc\<close>, and \<open>chosen\<close> otherwise.
\<close>

theorem maxModularity_best:
  assumes nonempty: "cluster_local_map \<noteq> []"
    and keys: "distinct (map fst cluster_local_map)"
    and entries: "\<forall>(k, i)\<in>set cluster_local_map. unat k < length c_info \<and> unat i < length counter"
    and counter: "counter \<noteq> []"
    and sc: "unat sc < length c_info"
  shows "\<exists>chosen.
      maxModularity cluster_local_map counter self_loop_wt c_info deg_wt sc constant
        = Some (if size_c (c_info ! unat chosen) = 1 \<and> size_c (c_info ! unat sc) = 1 \<and> chosen > sc
                then sc else chosen)
    \<and> (chosen = sc \<or> chosen \<in> fst ` set cluster_local_map)
    \<and> (chosen = sc \<longrightarrow>
         (\<forall>y\<in>fst ` set cluster_local_map. y \<noteq> sc \<longrightarrow>
            \<not> dgreater (delta cluster_local_map counter self_loop_wt c_info deg_wt sc constant y)
                (Finite 0)))
    \<and> (chosen \<noteq> sc \<longrightarrow>
         dgreater (delta cluster_local_map counter self_loop_wt c_info deg_wt sc constant chosen)
           (Finite 0)
       \<and> (\<forall>y\<in>fst ` set cluster_local_map. y \<noteq> sc \<longrightarrow>
            \<not> dgreater (delta cluster_local_map counter self_loop_wt c_info deg_wt sc constant y)
                (delta cluster_local_map counter self_loop_wt c_info deg_wt sc constant chosen)
          \<and> (deq (delta cluster_local_map counter self_loop_wt c_info deg_wt sc constant y)
                (delta cluster_local_map counter self_loop_wt c_info deg_wt sc constant chosen)
              \<longrightarrow> chosen \<le> y)))"
proof -
  let ?G = "delta cluster_local_map counter self_loop_wt c_info deg_wt sc constant"
  let ?eix = "double_of_u64 (counter ! 0 - self_loop_wt)"
  let ?ax = "double_of_u64 (degree_wt_c (c_info ! unat sc) - deg_wt)"
  have init: "best_so_far ?G sc {} (Finite 0, sc)"
    by (simp add: best_so_far_def)
  have ent: "\<forall>(k, i)\<in>set cluster_local_map. unat k < length c_info \<and> unat i < length counter
           \<and> ?G k = gain constant deg_wt ?eix ?ax (double_of_u64 (counter ! unat i))
                      (double_of_u64 (degree_wt_c (c_info ! unat k)))"
    using entries keys by (auto simp: delta_def gain_def)
  from maxModularity_loop_inv [OF init ent]
  obtain mg mi where loop: "do_all (maxModularity_step c_info counter deg_wt sc constant ?eix ?ax)
        cluster_local_map (Finite 0, sc) = Some (mg, mi)"
    and fin: "best_so_far ?G sc (fst ` set cluster_local_map) (mg, mi)"
    by auto
  have mi_in: "mi = sc \<or> mi \<in> fst ` set cluster_local_map"
    using fin by (auto simp: best_so_far_def)
  have mi_valid: "unat mi < length c_info"
    using mi_in sc entries by auto
  have res: "maxModularity cluster_local_map counter self_loop_wt c_info deg_wt sc constant
        = Some (if size_c (c_info ! unat mi) = 1 \<and> size_c (c_info ! unat sc) = 1 \<and> mi > sc
                then sc else mi)"
    using nonempty counter sc loop mi_valid
    by (simp add: maxModularity_def elem_at_def Let_def)
  have stay: "mi = sc \<longrightarrow> (\<forall>y\<in>fst ` set cluster_local_map. y \<noteq> sc \<longrightarrow> \<not> dgreater (?G y) (Finite 0))"
    using fin by (auto simp: best_so_far_def dgreater_def)
  have move: "mi \<noteq> sc \<longrightarrow> dgreater (?G mi) (Finite 0)
       \<and> (\<forall>y\<in>fst ` set cluster_local_map. y \<noteq> sc \<longrightarrow>
            \<not> dgreater (?G y) (?G mi) \<and> (deq (?G y) (?G mi) \<longrightarrow> mi \<le> y))"
    using fin by (auto simp: best_so_far_def dgreater_def)
  from res mi_in stay move show ?thesis by blast
qed

lemmas mm_defs = maxModularity_def maxModularity_step_def elem_at_def gain_def delta_def

lemmas slow_round = round64_def round_pos_def round_even_def scale_up.simps scale_down.simps

text \<open>Two calls. In the first every operation is exact: community 0 has the gain
  \<open>1/4 - 1/4\<close> and community 2 the gain \<open>1/4\<close>. In the second the constant is the
  binary64 number nearest to \<open>1/49\<close>: the two terms of the gain of community 0 would
  cancel in exact arithmetic, the rounded ones leave \<open>2\<^sup>-\<^sup>5\<^sup>7\<close>, and the vertex moves.\<close>

lemma maxModularity_exact_example:
  "maxModularity [(0, 1), (1, 0), (2, 2)] [1, 2, 2] 0
     [\<lparr>size_c = 2, degree_wt_c = 7\<rparr>, \<lparr>size_c = 2, degree_wt_c = 5\<rparr>, \<lparr>size_c = 2, degree_wt_c = 3\<rparr>]
     2 1 (Finite (1 / 8)) = Some 2"
  "delta [(0, 1), (1, 0), (2, 2)] [1, 2, 2] 0
     [\<lparr>size_c = 2, degree_wt_c = 7\<rparr>, \<lparr>size_c = 2, degree_wt_c = 5\<rparr>, \<lparr>size_c = 2, degree_wt_c = 3\<rparr>]
     2 1 (Finite (1 / 8)) 0 = Finite 0"
  "delta [(0, 1), (1, 0), (2, 2)] [1, 2, 2] 0
     [\<lparr>size_c = 2, degree_wt_c = 7\<rparr>, \<lparr>size_c = 2, degree_wt_c = 5\<rparr>, \<lparr>size_c = 2, degree_wt_c = 3\<rparr>]
     2 1 (Finite (1 / 8)) 2 = Finite (1 / 4)"
  by (simp_all add: mm_defs double_defs)

lemma maxModularity_rounded_example:
  "maxModularity [(0, 1), (1, 0)] [0, 1] 0
     [\<lparr>size_c = 2, degree_wt_c = 7\<rparr>, \<lparr>size_c = 2, degree_wt_c = 7\<rparr>] 7 1 (Finite (1 / 49)) = Some 0"
  "delta [(0, 1), (1, 0)] [0, 1] 0
     [\<lparr>size_c = 2, degree_wt_c = 7\<rparr>, \<lparr>size_c = 2, degree_wt_c = 7\<rparr>] 7 1 (Finite (1 / 49)) 0
   = Finite (1 / 2 ^ 57)"
  by (simp_all add: mm_defs double_defs slow_round)

theorem maxModularity_best_witness:
  "([(0, 1), (1, 0), (2, 2)] :: cluster_map) \<noteq> []
   \<and> distinct (map fst ([(0, 1), (1, 0), (2, 2)] :: cluster_map))
   \<and> [1, 2, 2 :: u64] \<noteq> []
   \<and> maxModularity [(0, 1), (1, 0), (2, 2)] [1, 2, 2] 0
       [\<lparr>size_c = 2, degree_wt_c = 7\<rparr>, \<lparr>size_c = 2, degree_wt_c = 5\<rparr>, \<lparr>size_c = 2, degree_wt_c = 3\<rparr>]
       2 1 (Finite (1 / 8)) = Some 2
   \<and> delta [(0, 1), (1, 0), (2, 2)] [1, 2, 2] 0
       [\<lparr>size_c = 2, degree_wt_c = 7\<rparr>, \<lparr>size_c = 2, degree_wt_c = 5\<rparr>, \<lparr>size_c = 2, degree_wt_c = 3\<rparr>]
       2 1 (Finite (1 / 8)) 0 = Finite 0
   \<and> delta [(0, 1), (1, 0), (2, 2)] [1, 2, 2] 0
       [\<lparr>size_c = 2, degree_wt_c = 7\<rparr>, \<lparr>size_c = 2, degree_wt_c = 5\<rparr>, \<lparr>size_c = 2, degree_wt_c = 3\<rparr>]
       2 1 (Finite (1 / 8)) 2 = Finite (1 / 4)
   \<and> maxModularity [(0, 1), (1, 0)] [0, 1] 0
       [\<lparr>size_c = 2, degree_wt_c = 7\<rparr>, \<lparr>size_c = 2, degree_wt_c = 7\<rparr>] 7 1 (Finite (1 / 49)) = Some 0
   \<and> delta [(0, 1), (1, 0)] [0, 1] 0
       [\<lparr>size_c = 2, degree_wt_c = 7\<rparr>, \<lparr>size_c = 2, degree_wt_c = 7\<rparr>] 7 1 (Finite (1 / 49)) 0
     = Finite (1 / 2 ^ 57)"
proof -
  let ?m = "[(0, 1), (1, 0), (2, 2)] :: cluster_map"
  let ?ci = "[\<lparr>size_c = 2, degree_wt_c = 7\<rparr>, \<lparr>size_c = 2, degree_wt_c = 5\<rparr>,
              \<lparr>size_c = 2, degree_wt_c = 3\<rparr>]"
  let ?m' = "[(0, 1), (1, 0)] :: cluster_map"
  let ?ci' = "[\<lparr>size_c = 2, degree_wt_c = 7\<rparr>, \<lparr>size_c = 2, degree_wt_c = 7\<rparr>]"
  have h: "?m \<noteq> []" "distinct (map fst ?m)"
    "\<forall>(k, i)\<in>set ?m. unat k < length ?ci \<and> unat i < length [1, 2, 2 :: u64]"
    "[1, 2, 2 :: u64] \<noteq> []" "unat (1 :: u64) < length ?ci"
    by simp_all
  have h': "?m' \<noteq> []" "distinct (map fst ?m')"
    "\<forall>(k, i)\<in>set ?m'. unat k < length ?ci' \<and> unat i < length [0, 1 :: u64]"
    "[0, 1 :: u64] \<noteq> []" "unat (1 :: u64) < length ?ci'"
    by simp_all
  from maxModularity_best [OF h, of 0 2 "Finite (1 / 8)"]
  have r: "\<exists>r. maxModularity ?m [1, 2, 2] 0 ?ci 2 1 (Finite (1 / 8)) = Some r"
    by (elim exE conjE) (rule exI)
  from maxModularity_best [OF h', of 0 7 "Finite (1 / 49)"]
  have r': "\<exists>r. maxModularity ?m' [0, 1] 0 ?ci' 7 1 (Finite (1 / 49)) = Some r"
    by (elim exE conjE) (rule exI)
  from r r' show ?thesis
    by (intro conjI h(1,2,4) maxModularity_exact_example maxModularity_rounded_example)
qed

text \<open>
  Claim C1 as stated fails on a tie at gain 0. Vertex of weight 2 in community 1,
  neighbouring community 0 with \<open>e_iy - e_ix = 1\<close> and \<open>a_x - a_y = -4\<close>, constant
  \<open>1/8\<close>: the gain of community 0 is \<open>1/4 - 1/4\<close>, with no rounding anywhere, the same
  as the initial gain 0 of \<open>sc = 1\<close>, and 0 is the smaller id; the function returns 1.
\<close>

theorem maxModularity_zero_tie_counterexample:
  "delta [(0, 1), (1, 0)] [1, 2] 0 [\<lparr>size_c = 2, degree_wt_c = 6\<rparr>, \<lparr>size_c = 2, degree_wt_c = 4\<rparr>]
     2 1 (Finite (1 / 8)) 0 = Finite 0
   \<and> (0 :: u64) < 1
   \<and> maxModularity [(0, 1), (1, 0)] [1, 2] 0
       [\<lparr>size_c = 2, degree_wt_c = 6\<rparr>, \<lparr>size_c = 2, degree_wt_c = 4\<rparr>] 2 1 (Finite (1 / 8)) = Some 1"
  by (simp add: mm_defs double_defs)

end
